theory Spec2Isabelle
  imports Complex_Main
begin

section \<open>Scalars, vectors and matrices\<close>

text \<open>
  \<^verbatim>\<open>FCL_REAL\<close> is a C++ double. A finite double is a real number, and the embedding
  keeps the values as reals; comparisons of finite doubles are those of their values.
  The sums, differences, products and quotients that \<^verbatim>\<open>traversal_node_bvhs.cpp\<close>
  takes of \<^verbatim>\<open>FCL_REAL\<close> values (the admissibility test of \<^verbatim>\<open>canStop\<close>, lines 616, 676
  and 814; \<^verbatim>\<open>bound1 + bound2\<close>, lines 646, 706, 802 and 849; \<^verbatim>\<open>c / bound\<close> and
  \<^verbatim>\<open>d / bound\<close>, lines 650, 710, 806 and 853) are taken from an arithmetic \<open>fp\<close> that a
  traversal node carries with what it reads:
  \<^item> \<open>double_arith\<close> is IEEE 754 binary64 with rounding to nearest, ties to even: each
    operation is the exact one followed by \<open>round_to_double\<close>, which keeps 53 significant
    bits. Overflow, the subnormal range, infinities and NaN are outside it; a quotient by
    0 is 0 in HOL and an infinity or NaN in C++, and the quotients \<open>c / bound\<close> of the code
    are taken for \<open>c < bound\<close> only, so with a divisor 0 only for a negative \<open>c\<close>.
  \<^item> \<open>exact_arith\<close> is the arithmetic of the reals, the idealisation in which the first
    concrete query below is evaluated.
\<close>

definition round_half_even :: "real \<Rightarrow> int" where
  "round_half_even y =
     (let f = \<lfloor>y\<rfloor> in
      if y - of_int f < 1 / 2 then f
      else if 1 / 2 < y - of_int f then f + 1
      else if even f then f else f + 1)"

definition round_to_double :: "real \<Rightarrow> real" where
  "round_to_double x =
     (if x = 0 then 0
      else
        let u = 2 powr (of_int \<lfloor>log 2 \<bar>x\<bar>\<rfloor> - 52)
        in u * of_int (round_half_even (x / u)))"

record FCL_REAL_arith =
  fadd :: "real \<Rightarrow> real \<Rightarrow> real"
  fsub :: "real \<Rightarrow> real \<Rightarrow> real"
  fmul :: "real \<Rightarrow> real \<Rightarrow> real"
  fdiv :: "real \<Rightarrow> real \<Rightarrow> real"

definition double_arith :: FCL_REAL_arith where
  "double_arith =
     \<lparr>fadd = (\<lambda>a b. round_to_double (a + b)),
      fsub = (\<lambda>a b. round_to_double (a - b)),
      fmul = (\<lambda>a b. round_to_double (a * b)),
      fdiv = (\<lambda>a b. round_to_double (a / b))\<rparr>"

definition exact_arith :: FCL_REAL_arith where
  "exact_arith = \<lparr>fadd = (+), fsub = (-), fmul = (*), fdiv = (/)\<rparr>"

text \<open>
  \<^verbatim>\<open>Vec3f\<close> and \<^verbatim>\<open>Matrix3f\<close> are declared in headers outside
  \<^verbatim>\<open>traversal_node_bvhs.cpp\<close>; their operators are the component-wise ones, over the
  reals: the rounding inside the vector and matrix operators, like that inside the
  geometric kernels and the motion bounds, belongs to code outside the file and is not
  modelled. \<open>vidx v i\<close> is \<^verbatim>\<open>v[i]\<close>; the source only uses the literal indices 0, 1 and 2.
\<close>

datatype Vec3f = Vec3f real real real

fun vidx :: "Vec3f \<Rightarrow> nat \<Rightarrow> real" where
  "vidx (Vec3f x y z) i = (if i = 0 then x else if i = 1 then y else z)"

instantiation Vec3f :: "{zero, plus, minus, uminus}"
begin

definition zero_Vec3f :: Vec3f where
  "zero_Vec3f = Vec3f 0 0 0"

fun plus_Vec3f :: "Vec3f \<Rightarrow> Vec3f \<Rightarrow> Vec3f" where
  "plus_Vec3f (Vec3f a b c) (Vec3f x y z) = Vec3f (a + x) (b + y) (c + z)"

fun minus_Vec3f :: "Vec3f \<Rightarrow> Vec3f \<Rightarrow> Vec3f" where
  "minus_Vec3f (Vec3f a b c) (Vec3f x y z) = Vec3f (a - x) (b - y) (c - z)"

fun uminus_Vec3f :: "Vec3f \<Rightarrow> Vec3f" where
  "uminus_Vec3f (Vec3f a b c) = Vec3f (- a) (- b) (- c)"

instance ..

end

text \<open>\<^verbatim>\<open>Vec3f * FCL_REAL\<close>.\<close>

fun vscale :: "Vec3f \<Rightarrow> real \<Rightarrow> Vec3f" where
  "vscale (Vec3f a b c) k = Vec3f (a * k) (b * k) (c * k)"

fun dot :: "Vec3f \<Rightarrow> Vec3f \<Rightarrow> real" where
  "dot (Vec3f a b c) (Vec3f x y z) = a * x + b * y + c * z"

definition sqrLength :: "Vec3f \<Rightarrow> real" where
  "sqrLength v = dot v v"

definition vlength :: "Vec3f \<Rightarrow> real" where
  "vlength v = sqrt (sqrLength v)"

text \<open>A \<^verbatim>\<open>Matrix3f\<close> by its three rows; \<open>mat_vec M v\<close> is \<^verbatim>\<open>M * v\<close>.\<close>

datatype Matrix3f = Matrix3f Vec3f Vec3f Vec3f

fun mat_vec :: "Matrix3f \<Rightarrow> Vec3f \<Rightarrow> Vec3f" where
  "mat_vec (Matrix3f r0 r1 r2) v = Vec3f (dot r0 v) (dot r1 v) (dot r2 v)"

text \<open>
  Modelled from the spec: \<^verbatim>\<open>Vec3f::normalize\<close> is declared outside
  \<^verbatim>\<open>traversal_node_bvhs.cpp\<close>. The spec says the direction is "normalized": the
  vector divided by its Euclidean length. For the zero vector the divisor is 0; what is
  proved below of a unit direction is proved for a positive length only.
\<close>

definition normalize_Vec3f :: "Vec3f \<Rightarrow> Vec3f" where
  "normalize_Vec3f v = vscale v (1 / vlength v)"

section \<open>Conservative advancement: the state of a traversal node\<close>

text \<open>
  \<^verbatim>\<open>ConservativeAdvancementStackData(P1, P2, c1, c2, d)\<close>: the witness points of a
  node pair, the two node indices and the pair's distance.
\<close>

record ConservativeAdvancementStackData =
  P1 :: Vec3f
  P2 :: Vec3f
  c1 :: int
  c2 :: int
  d :: real

text \<open>
  The fields of \<^verbatim>\<open>MeshConservativeAdvancementTraversalNode\<close> that \<^verbatim>\<open>BVTesting\<close>,
  \<^verbatim>\<open>leafTesting\<close> and \<^verbatim>\<open>canStop\<close> read and write. The \<^verbatim>\<open>std::vector\<close> \<open>stack\<close>
  is a list whose last element is \<^verbatim>\<open>stack.back()\<close>.
\<close>

record node =
  min_distance :: real
  p1 :: Vec3f
  p2 :: Vec3f
  last_tri_id1 :: int
  last_tri_id2 :: int
  w :: real
  abs_err :: real
  rel_err :: real
  delta_t :: real
  stack :: "ConservativeAdvancementStackData list"
  num_bv_tests :: int
  num_leaf_tests :: int

text \<open>
  A read of \<^verbatim>\<open>stack.back()\<close> on an empty vector or of \<^verbatim>\<open>stack[stack.size() - 2]\<close>
  on a vector of fewer than two frames is outside the vector, as is a read past the end
  of an array; a failing \<^verbatim>\<open>assert\<close> aborts, unless the build defines \<^verbatim>\<open>NDEBUG\<close>,
  which removes the assertion. Both are results of the model.
\<close>

datatype error = OutOfBounds | AssertionFailed

section \<open>What a traversal node reads\<close>

text \<open>
  Modelled from the spec: \<^verbatim>\<open>isOccupied\<close> and \<^verbatim>\<open>isFree\<close> are declared outside
  \<^verbatim>\<open>traversal_node_bvhs.cpp\<close>. The spec gives a mesh model an occupancy
  classification per region, Occupied, Free or Unknown, as an enumerated tag.
\<close>

datatype Occupancy = Occupied | Free | Unknown

text \<open>
  A \<^verbatim>\<open>BVHModel\<close>: \<open>address\<close> is the object's identity, which pointers to it compare
  by; \<open>getBV\<close> gives the bounding volume of a node (\<^verbatim>\<open>model->getBV(i).bv\<close>, of a
  type \<open>'bv\<close> standing for OBB, RSS, kIOS or OBBRSS) and \<open>primitiveId\<close> the primitive
  of a node (\<^verbatim>\<open>model->getBV(i).primitiveId()\<close>). Node indices are the driver's, taken
  from the trees; both are read as total functions of the index.
\<close>

record 'bv BVHModel =
  address :: nat
  occupancy :: Occupancy
  getBV :: "int \<Rightarrow> 'bv"
  primitiveId :: "int \<Rightarrow> int"

definition isOccupied :: "'bv BVHModel \<Rightarrow> bool" where
  "isOccupied m \<longleftrightarrow> occupancy m = Occupied"

definition isFree :: "'bv BVHModel \<Rightarrow> bool" where
  "isFree m \<longleftrightarrow> occupancy m = Free"

text \<open>\<^verbatim>\<open>Triangle\<close> holds three vertex indices.\<close>

type_synonym Triangle = "nat \<times> nat \<times> nat"

text \<open>
  A motion, by the two queries the nodes make of it: the bound of a bounding volume or
  of a triangle along a direction (the two overloads of \<^verbatim>\<open>computeMotionBound\<close>) and
  the current rotation. They are external oracles.
\<close>

record 'bv motion =
  computeMotionBound :: "'bv \<Rightarrow> Vec3f \<Rightarrow> real"
  computeMotionBoundTri :: "Vec3f \<Rightarrow> Vec3f \<Rightarrow> Vec3f \<Rightarrow> Vec3f \<Rightarrow> real"
  getCurrentRotation :: Matrix3f

text \<open>
  \<^verbatim>\<open>SimpleTransform\<close>, by what the nodes ask of it: \<^verbatim>\<open>tf.transform(p)\<close> and
  \<^verbatim>\<open>tf.getQuatRotation().transform(n)\<close>.
\<close>

record SimpleTransform =
  transform :: "Vec3f \<Rightarrow> Vec3f"
  quatRotation_transform :: "Vec3f \<Rightarrow> Vec3f"

record AABB =
  min_ :: Vec3f
  max_ :: Vec3f

text \<open>
  Everything the leaf tests, \<^verbatim>\<open>BVTesting\<close> and \<^verbatim>\<open>canStop\<close> read and never write:
  the two models, their vertex and triangle arrays, the relative frame \<open>R\<close>, \<open>T\<close>, the
  two bodies' transforms, whether the build defines \<^verbatim>\<open>NDEBUG\<close>, the arithmetic of
  \<^verbatim>\<open>FCL_REAL\<close>, the local axes of a
  bounding volume (\<^verbatim>\<open>bv.axis[i]\<close>), the two motions and the geometric kernels,
  which are defined outside \<^verbatim>\<open>traversal_node_bvhs.cpp\<close> and are taken as
  parameters:
  \<^item> \<open>intersect_Triangle\<close>, the overload of \<^verbatim>\<open>Intersect::intersect_Triangle\<close> that only
    answers whether two triangles intersect;
  \<^item> \<open>intersect_Triangle_contacts\<close>, the overload that also fills \<^verbatim>\<open>contacts[2]\<close>,
    \<^verbatim>\<open>n_contacts\<close>, \<^verbatim>\<open>penetration\<close> and \<^verbatim>\<open>normal\<close>: \<open>None\<close> when it returns false;
  \<^item> \<open>triDistance\<close>, \<^verbatim>\<open>TriangleDistance::triDistance\<close> with the nearest points it writes;
  \<^item> \<open>distance\<close>, the distance of two bounding volumes with its two witness points;
  \<^item> \<open>overlap_part\<close>, what \<^verbatim>\<open>AABB(a, b, c).overlap(AABB(x, y, z), overlap_part)\<close>
    leaves in \<^verbatim>\<open>overlap_part\<close>.
\<close>

record 'bv env =
  model1 :: "'bv BVHModel"
  model2 :: "'bv BVHModel"
  vertices1 :: "Vec3f list"
  vertices2 :: "Vec3f list"
  tri_indices1 :: "Triangle list"
  tri_indices2 :: "Triangle list"
  R :: Matrix3f
  T :: Vec3f
  tf1 :: SimpleTransform
  tf2 :: SimpleTransform
  enable_statistics :: bool
  NDEBUG :: bool
  fp :: FCL_REAL_arith
  cost_density :: real
  axis :: "'bv \<Rightarrow> nat \<Rightarrow> Vec3f"
  motion1 :: "'bv motion"
  motion2 :: "'bv motion"
  intersect_Triangle :: "Vec3f \<Rightarrow> Vec3f \<Rightarrow> Vec3f \<Rightarrow> Vec3f \<Rightarrow> Vec3f \<Rightarrow> Vec3f \<Rightarrow>
                         Matrix3f \<Rightarrow> Vec3f \<Rightarrow> bool"
  intersect_Triangle_contacts :: "Vec3f \<Rightarrow> Vec3f \<Rightarrow> Vec3f \<Rightarrow> Vec3f \<Rightarrow> Vec3f \<Rightarrow> Vec3f \<Rightarrow>
                         Matrix3f \<Rightarrow> Vec3f \<Rightarrow>
                         ((Vec3f \<times> Vec3f) \<times> nat \<times> real \<times> Vec3f) option"
  triDistance :: "Vec3f \<Rightarrow> Vec3f \<Rightarrow> Vec3f \<Rightarrow> Vec3f \<Rightarrow> Vec3f \<Rightarrow> Vec3f \<Rightarrow>
                  Matrix3f \<Rightarrow> Vec3f \<Rightarrow> real \<times> Vec3f \<times> Vec3f"
  distance :: "Matrix3f \<Rightarrow> Vec3f \<Rightarrow> 'bv \<Rightarrow> 'bv \<Rightarrow> real \<times> Vec3f \<times> Vec3f"
  overlap_part :: "Vec3f \<Rightarrow> Vec3f \<Rightarrow> Vec3f \<Rightarrow> Vec3f \<Rightarrow> Vec3f \<Rightarrow> Vec3f \<Rightarrow> AABB"

text \<open>
  The leaf's triangle: \<^verbatim>\<open>tri_indices[primitive_id]\<close>, then the three vertices
  \<^verbatim>\<open>vertices[tri_id[0]]\<close>, \<^verbatim>\<open>vertices[tri_id[1]]\<close>, \<^verbatim>\<open>vertices[tri_id[2]]\<close>. Each array
  is read within its length or the read is out of bounds.
\<close>

definition at_int :: "'a list \<Rightarrow> int \<Rightarrow> error + 'a" where
  "at_int xs i = (if 0 \<le> i \<and> nat i < length xs then Inr (xs ! nat i) else Inl OutOfBounds)"

definition at_nat :: "'a list \<Rightarrow> nat \<Rightarrow> error + 'a" where
  "at_nat xs i = (if i < length xs then Inr (xs ! i) else Inl OutOfBounds)"

definition leaf_triangle ::
  "Vec3f list \<Rightarrow> Triangle list \<Rightarrow> int \<Rightarrow> error + (Vec3f \<times> Vec3f \<times> Vec3f)" where
  "leaf_triangle vertices tri_indices primitive_id =
     (case at_int tri_indices primitive_id of
        Inl err \<Rightarrow> Inl err
      | Inr (i0, i1, i2) \<Rightarrow>
          (case at_nat vertices i0 of
             Inl err \<Rightarrow> Inl err
           | Inr t1 \<Rightarrow>
               (case at_nat vertices i1 of
                  Inl err \<Rightarrow> Inl err
                | Inr t2 \<Rightarrow>
                    (case at_nat vertices i2 of
                       Inl err \<Rightarrow> Inl err
                     | Inr t3 \<Rightarrow> Inr (t1, t2, t3)))))"

section \<open>canStop\<close>

text \<open>
  \<^verbatim>\<open>MeshConservativeAdvancementTraversalNode<OBB>::canStop\<close> (lines 613 to 671).
  The tuple \<open>(dd, n, cc1, cc2, stk)\<close> holds the source's locals \<^verbatim>\<open>d\<close>, \<^verbatim>\<open>n\<close>, \<^verbatim>\<open>c1\<close>,
  \<^verbatim>\<open>c2\<close> and the stack after the branch on \<^verbatim>\<open>d > c\<close>.
\<close>

definition canStop_OBB :: "'bv env \<Rightarrow> real \<Rightarrow> node \<Rightarrow> error + (bool \<times> node)" where
  "canStop_OBB e c s =
    (if c \<ge> fmul (fp e) (w s) (fsub (fp e) (min_distance s) (abs_err s))
         \<and> fmul (fp e) c (fadd (fp e) 1 (rel_err s)) \<ge> fmul (fp e) (w s) (min_distance s)
     then
       (if stack s = [] then Inl OutOfBounds
        else
          let data = last (stack s) in
          (case
             (if d data > c
              then
                (if length (stack s) < 2 then Inl OutOfBounds
                 else
                   let data2 = stack s ! (length (stack s) - 2) in
                   Inr (d data2, P2 data2 - P1 data2, c1 data2, c2 data2,
                        (stack s)[length (stack s) - 2 := stack s ! (length (stack s) - 1)]))
              else Inr (d data, P2 data - P1 data, c1 data, c2 data, stack s))
           of
             Inl err \<Rightarrow> Inl err
           | Inr (dd, n, cc1, cc2, stk) \<Rightarrow>
               if \<not> NDEBUG e \<and> c \<noteq> dd then Inl AssertionFailed
               else
                 let n_transformed =
                       vscale (axis e (getBV (model1 e) cc1) 0) (vidx n 0)
                       + vscale (axis e (getBV (model1 e) cc1) 1) (vidx n 1)
                       + vscale (axis e (getBV (model1 e) cc1) 2) (vidx n 2);
                     bound1 = computeMotionBound (motion1 e) (getBV (model1 e) cc1) n_transformed;
                     bound2 = computeMotionBound (motion2 e) (getBV (model2 e) cc2) n_transformed;
                     bound = fadd (fp e) bound1 bound2;
                     cur_delta_t = (if bound \<le> c then 1 else fdiv (fp e) c bound)
                 in Inr (True,
                      s\<lparr>delta_t := (if cur_delta_t < delta_t s then cur_delta_t else delta_t s),
                        stack := butlast stk\<rparr>)))
     else
       (if stack s = [] then Inl OutOfBounds
        else
          let data = last (stack s) in
          if d data > c
          then
            (if length (stack s) < 2 then Inl OutOfBounds
             else Inr (False,
                    s\<lparr>stack := butlast ((stack s)[length (stack s) - 2 :=
                                              stack s ! (length (stack s) - 1)])\<rparr>))
          else Inr (False, s\<lparr>stack := butlast (stack s)\<rparr>)))"

text \<open>
  \<^verbatim>\<open>MeshConservativeAdvancementTraversalNode<RSS>::canStop\<close> (lines 673 to 731): the
  same text as the OBB specialization.
\<close>

definition canStop_RSS :: "'bv env \<Rightarrow> real \<Rightarrow> node \<Rightarrow> error + (bool \<times> node)" where
  "canStop_RSS e c s =
    (if c \<ge> fmul (fp e) (w s) (fsub (fp e) (min_distance s) (abs_err s))
         \<and> fmul (fp e) c (fadd (fp e) 1 (rel_err s)) \<ge> fmul (fp e) (w s) (min_distance s)
     then
       (if stack s = [] then Inl OutOfBounds
        else
          let data = last (stack s) in
          (case
             (if d data > c
              then
                (if length (stack s) < 2 then Inl OutOfBounds
                 else
                   let data2 = stack s ! (length (stack s) - 2) in
                   Inr (d data2, P2 data2 - P1 data2, c1 data2, c2 data2,
                        (stack s)[length (stack s) - 2 := stack s ! (length (stack s) - 1)]))
              else Inr (d data, P2 data - P1 data, c1 data, c2 data, stack s))
           of
             Inl err \<Rightarrow> Inl err
           | Inr (dd, n, cc1, cc2, stk) \<Rightarrow>
               if \<not> NDEBUG e \<and> c \<noteq> dd then Inl AssertionFailed
               else
                 let n_transformed =
                       vscale (axis e (getBV (model1 e) cc1) 0) (vidx n 0)
                       + vscale (axis e (getBV (model1 e) cc1) 1) (vidx n 1)
                       + vscale (axis e (getBV (model1 e) cc1) 2) (vidx n 2);
                     bound1 = computeMotionBound (motion1 e) (getBV (model1 e) cc1) n_transformed;
                     bound2 = computeMotionBound (motion2 e) (getBV (model2 e) cc2) n_transformed;
                     bound = fadd (fp e) bound1 bound2;
                     cur_delta_t = (if bound \<le> c then 1 else fdiv (fp e) c bound)
                 in Inr (True,
                      s\<lparr>delta_t := (if cur_delta_t < delta_t s then cur_delta_t else delta_t s),
                        stack := butlast stk\<rparr>)))
     else
       (if stack s = [] then Inl OutOfBounds
        else
          let data = last (stack s) in
          if d data > c
          then
            (if length (stack s) < 2 then Inl OutOfBounds
             else Inr (False,
                    s\<lparr>stack := butlast ((stack s)[length (stack s) - 2 :=
                                              stack s ! (length (stack s) - 1)])\<rparr>))
          else Inr (False, s\<lparr>stack := butlast (stack s)\<rparr>)))"

text \<open>
  \<^verbatim>\<open>MeshConservativeAdvancementTraversalNodeRSS::canStop\<close> (lines 812 to 874). The
  axis combination multiplies \<^verbatim>\<open>axis[1]\<close> by \<^verbatim>\<open>n[2]\<close>, as line 840 does; the result
  is rotated by body 1's current rotation and normalized, and body 2's bound is asked
  for the negated direction.
\<close>

definition canStop_NodeRSS :: "'bv env \<Rightarrow> real \<Rightarrow> node \<Rightarrow> error + (bool \<times> node)" where
  "canStop_NodeRSS e c s =
    (if c \<ge> fmul (fp e) (w s) (fsub (fp e) (min_distance s) (abs_err s))
         \<and> fmul (fp e) c (fadd (fp e) 1 (rel_err s)) \<ge> fmul (fp e) (w s) (min_distance s)
     then
       (if stack s = [] then Inl OutOfBounds
        else
          let data = last (stack s) in
          (case
             (if d data > c
              then
                (if length (stack s) < 2 then Inl OutOfBounds
                 else
                   let data2 = stack s ! (length (stack s) - 2) in
                   Inr (d data2, P2 data2 - P1 data2, c1 data2, c2 data2,
                        (stack s)[length (stack s) - 2 := stack s ! (length (stack s) - 1)]))
              else Inr (d data, P2 data - P1 data, c1 data, c2 data, stack s))
           of
             Inl err \<Rightarrow> Inl err
           | Inr (dd, n, cc1, cc2, stk) \<Rightarrow>
               if \<not> NDEBUG e \<and> c \<noteq> dd then Inl AssertionFailed
               else
                 let n_transformed0 =
                       vscale (axis e (getBV (model1 e) cc1) 0) (vidx n 0)
                       + vscale (axis e (getBV (model1 e) cc1) 1) (vidx n 2)
                       + vscale (axis e (getBV (model1 e) cc1) 2) (vidx n 2);
                     R0 = getCurrentRotation (motion1 e);
                     n_transformed = normalize_Vec3f (mat_vec R0 n_transformed0);
                     bound1 = computeMotionBound (motion1 e) (getBV (model1 e) cc1) n_transformed;
                     bound2 = computeMotionBound (motion2 e) (getBV (model2 e) cc2) (- n_transformed);
                     bound = fadd (fp e) bound1 bound2;
                     cur_delta_t = (if bound \<le> c then 1 else fdiv (fp e) c bound)
                 in Inr (True,
                      s\<lparr>delta_t := (if cur_delta_t < delta_t s then cur_delta_t else delta_t s),
                        stack := butlast stk\<rparr>)))
     else
       (if stack s = [] then Inl OutOfBounds
        else
          let data = last (stack s) in
          if d data > c
          then
            (if length (stack s) < 2 then Inl OutOfBounds
             else Inr (False,
                    s\<lparr>stack := butlast ((stack s)[length (stack s) - 2 :=
                                              stack s ! (length (stack s) - 1)])\<rparr>))
          else Inr (False, s\<lparr>stack := butlast (stack s)\<rparr>)))"

section \<open>BVTesting and leafTesting of the RSS conservative advancement node\<close>

text \<open>
  \<^verbatim>\<open>MeshConservativeAdvancementTraversalNodeRSS::BVTesting\<close> (lines 740 to 749): the
  distance of the two bounding volumes with its witness points, pushed as a new frame.
\<close>

definition BVTesting_NodeRSS :: "'bv env \<Rightarrow> int \<Rightarrow> int \<Rightarrow> node \<Rightarrow> real \<times> node" where
  "BVTesting_NodeRSS e b1 b2 s =
    (let s1 = (if enable_statistics e then s\<lparr>num_bv_tests := num_bv_tests s + 1\<rparr> else s)
     in case distance e (R e) (T e) (getBV (model1 e) b1) (getBV (model2 e) b2) of
          (dis, Q1, Q2) \<Rightarrow>
            (dis, s1\<lparr>stack := stack s1 @ [\<lparr>P1 = Q1, P2 = Q2, c1 = b1, c2 = b2, d = dis\<rparr>]\<rparr>))"

text \<open>
  \<^verbatim>\<open>MeshConservativeAdvancementTraversalNodeRSS::leafTesting\<close> (lines 752 to 810).
  \<open>dis\<close>, \<open>Q1\<close>, \<open>Q2\<close> are the source's locals \<^verbatim>\<open>d\<close>, \<^verbatim>\<open>P1\<close>, \<^verbatim>\<open>P2\<close>.
\<close>

definition leafTesting_NodeRSS :: "'bv env \<Rightarrow> int \<Rightarrow> int \<Rightarrow> node \<Rightarrow> error + node" where
  "leafTesting_NodeRSS e b1 b2 s =
    (let s1 = (if enable_statistics e then s\<lparr>num_leaf_tests := num_leaf_tests s + 1\<rparr> else s);
         primitive_id1 = primitiveId (model1 e) b1;
         primitive_id2 = primitiveId (model2 e) b2
     in case leaf_triangle (vertices1 e) (tri_indices1 e) primitive_id1 of
          Inl err \<Rightarrow> Inl err
        | Inr (t11, t12, t13) \<Rightarrow>
            (case leaf_triangle (vertices2 e) (tri_indices2 e) primitive_id2 of
               Inl err \<Rightarrow> Inl err
             | Inr (t21, t22, t23) \<Rightarrow>
                 (case triDistance e t11 t12 t13 t21 t22 t23 (R e) (T e) of
                    (dis, Q1, Q2) \<Rightarrow>
                      let s2 = (if dis < min_distance s1
                                then s1\<lparr>min_distance := dis, p1 := Q1, p2 := Q2,
                                        last_tri_id1 := primitive_id1,
                                        last_tri_id2 := primitive_id2\<rparr>
                                else s1);
                          n = Q2 - Q1;
                          R0 = getCurrentRotation (motion1 e);
                          n_transformed = normalize_Vec3f (mat_vec R0 n);
                          bound1 = computeMotionBoundTri (motion1 e) t11 t12 t13 n_transformed;
                          bound2 = computeMotionBoundTri (motion2 e) t21 t22 t23 (- n_transformed);
                          bound = fadd (fp e) bound1 bound2;
                          cur_delta_t = (if bound \<le> dis then 1 else fdiv (fp e) dis bound)
                      in Inr (s2\<lparr>delta_t := (if cur_delta_t < delta_t s2 then cur_delta_t
                                               else delta_t s2)\<rparr>))))"

text \<open>
  The driver's calls on the RSS conservative advancement node, run in order; the run
  stops at the first call that fails. The driver and the order of its calls are outside
  the file: a run is any list of calls.
\<close>

datatype call = BVTesting int int | CanStop real | LeafTesting int int

fun step :: "'bv env \<Rightarrow> call \<Rightarrow> node \<Rightarrow> error + node" where
  "step e (BVTesting b1 b2) s = Inr (snd (BVTesting_NodeRSS e b1 b2 s))"
| "step e (CanStop c) s =
     (case canStop_NodeRSS e c s of Inl err \<Rightarrow> Inl err | Inr (b, s') \<Rightarrow> Inr s')"
| "step e (LeafTesting b1 b2) s = leafTesting_NodeRSS e b1 b2 s"

fun run :: "'bv env \<Rightarrow> call list \<Rightarrow> node \<Rightarrow> error + node" where
  "run e [] s = Inr s"
| "run e (x # xs) s = (case step e x s of Inl err \<Rightarrow> Inl err | Inr s' \<Rightarrow> run e xs s')"

section \<open>Collision: leafTesting\<close>

record CollisionRequest =
  num_max_contacts :: nat
  enable_contact :: bool
  enable_cost :: bool

text \<open>
  A \<^verbatim>\<open>Contact\<close> by the two constructors the leaf test calls: the two models and the
  two primitive ids, and with contact details the world-space point, the normal and
  the penetration depth as well. A \<^verbatim>\<open>CostSource\<close> is a box and a density.
\<close>

datatype Contact =
  Contact nat nat int int
| Contact_detail nat nat int int Vec3f Vec3f real

datatype CostSource = CostSource AABB real

text \<open>
  Modelled from the spec: \<^verbatim>\<open>CollisionResult\<close> with \<^verbatim>\<open>addContact\<close>,
  \<^verbatim>\<open>numContacts\<close> and \<^verbatim>\<open>addCostSource\<close> is declared outside
  \<^verbatim>\<open>traversal_node_bvhs.cpp\<close>. The spec's result "accumulates a list of contacts and a
  list of cost sources": adding appends, the number of contacts is the list's length.
  \<^verbatim>\<open>addContact\<close> receives the contact alone, not the request.
\<close>

record CollisionResult =
  contacts :: "Contact list"
  cost_sources :: "CostSource list"

definition addContact :: "Contact \<Rightarrow> CollisionResult \<Rightarrow> CollisionResult" where
  "addContact x r = r\<lparr>contacts := contacts r @ [x]\<rparr>"

definition numContacts :: "CollisionResult \<Rightarrow> nat" where
  "numContacts r = length (contacts r)"

definition addCostSource :: "CostSource \<Rightarrow> CollisionResult \<Rightarrow> CollisionResult" where
  "addCostSource x r = r\<lparr>cost_sources := cost_sources r @ [x]\<rparr>"

text \<open>\<^verbatim>\<open>contacts[i]\<close> of the two-element array \<^verbatim>\<open>Vec3f contacts[2]\<close>.\<close>

definition contacts_at :: "Vec3f \<times> Vec3f \<Rightarrow> nat \<Rightarrow> error + Vec3f" where
  "contacts_at cs i =
     (if i = 0 then Inr (fst cs) else if i = 1 then Inr (snd cs) else Inl OutOfBounds)"

text \<open>
  The loop of lines 107 to 110:
  \<^verbatim>\<open>for(unsigned int i = 0; i < n_contacts; ++i) result.addContact(Contact(...))\<close>.
\<close>

function addContacts_loop ::
  "'bv env \<Rightarrow> int \<Rightarrow> int \<Rightarrow> Vec3f \<times> Vec3f \<Rightarrow> Vec3f \<Rightarrow> real \<Rightarrow> nat \<Rightarrow> nat \<Rightarrow>
   CollisionResult \<Rightarrow> error + CollisionResult" where
  "addContacts_loop e primitive_id1 primitive_id2 cs normal penetration i n_contacts result =
     (if i < n_contacts
      then
        (case contacts_at cs i of
           Inl err \<Rightarrow> Inl err
         | Inr pt \<Rightarrow>
             addContacts_loop e primitive_id1 primitive_id2 cs normal penetration (i + 1) n_contacts
               (addContact
                  (Contact_detail (address (model1 e)) (address (model2 e))
                     primitive_id1 primitive_id2
                     (transform (tf1 e) pt) (quatRotation_transform (tf1 e) normal) penetration)
                  result))
      else Inr result)"
  by pat_completeness auto
termination
  by (relation "measure (\<lambda>(e, id1, id2, cs, normal, penetration, i, n, r). n - i)") auto

text \<open>
  \<^verbatim>\<open>details::meshCollisionOrientedNodeLeafTesting\<close> (lines 45 to 130), which every
  \<^verbatim>\<open>MeshCollisionTraversalNode*::leafTesting\<close> calls. The state is the node's leaf
  test counter and the result. \<open>q11\<close>, \<open>q12\<close>, \<open>q13\<close> are the source's \<^verbatim>\<open>p1\<close>, \<^verbatim>\<open>p2\<close>,
  \<^verbatim>\<open>p3\<close> and \<open>q21\<close>, \<open>q22\<close>, \<open>q23\<close> its \<^verbatim>\<open>q1\<close>, \<^verbatim>\<open>q2\<close>, \<^verbatim>\<open>q3\<close>.
\<close>

definition meshCollisionOrientedNodeLeafTesting ::
  "'bv env \<Rightarrow> int \<Rightarrow> int \<Rightarrow> CollisionRequest \<Rightarrow> int \<times> CollisionResult \<Rightarrow>
   error + (int \<times> CollisionResult)" where
  "meshCollisionOrientedNodeLeafTesting e b1 b2 request st =
    (case st of (num_leaf_tests0, result) \<Rightarrow>
     let num_leaf_tests1 = (if enable_statistics e then num_leaf_tests0 + 1 else num_leaf_tests0);
         primitive_id1 = primitiveId (model1 e) b1;
         primitive_id2 = primitiveId (model2 e) b2
     in case leaf_triangle (vertices1 e) (tri_indices1 e) primitive_id1 of
          Inl err \<Rightarrow> Inl err
        | Inr (q11, q12, q13) \<Rightarrow>
            (case leaf_triangle (vertices2 e) (tri_indices2 e) primitive_id2 of
               Inl err \<Rightarrow> Inl err
             | Inr (q21, q22, q23) \<Rightarrow>
                 if isOccupied (model1 e) \<and> isOccupied (model2 e)
                 then
                   (case
                      (if \<not> enable_contact request
                       then
                         (if intersect_Triangle e q11 q12 q13 q21 q22 q23 (R e) (T e)
                          then Inr (True,
                                 addContact (Contact (address (model1 e)) (address (model2 e))
                                               primitive_id1 primitive_id2) result)
                          else Inr (False, result))
                       else
                         (case intersect_Triangle_contacts e q11 q12 q13 q21 q22 q23 (R e) (T e) of
                            None \<Rightarrow> Inr (False, result)
                          | Some (cs, n_contacts0, penetration, normal) \<Rightarrow>
                              let n_contacts =
                                    (if num_max_contacts request < numContacts result + n_contacts0
                                     then (if num_max_contacts request > numContacts result
                                           then num_max_contacts request - numContacts result
                                           else 0)
                                     else n_contacts0)
                              in case addContacts_loop e primitive_id1 primitive_id2 cs normal
                                        penetration 0 n_contacts result of
                                   Inl err \<Rightarrow> Inl err
                                 | Inr result1 \<Rightarrow> Inr (True, result1)))
                    of
                      Inl err \<Rightarrow> Inl err
                    | Inr (is_intersect, result1) \<Rightarrow>
                        if is_intersect \<and> enable_cost request
                        then Inr (num_leaf_tests1,
                               addCostSource
                                 (CostSource
                                    (overlap_part e
                                       (transform (tf1 e) q11) (transform (tf1 e) q12)
                                       (transform (tf1 e) q13)
                                       (transform (tf2 e) q21) (transform (tf2 e) q22)
                                       (transform (tf2 e) q23))
                                    (cost_density e))
                                 result1)
                        else Inr (num_leaf_tests1, result1))
                 else if (\<not> isFree (model1 e) \<and> \<not> isFree (model2 e)) \<and> enable_cost request
                 then
                   (if intersect_Triangle e q11 q12 q13 q21 q22 q23 (R e) (T e)
                    then Inr (num_leaf_tests1,
                           addCostSource
                             (CostSource
                                (overlap_part e
                                   (transform (tf1 e) q11) (transform (tf1 e) q12)
                                   (transform (tf1 e) q13)
                                   (transform (tf2 e) q21) (transform (tf2 e) q22)
                                   (transform (tf2 e) q23))
                                (cost_density e))
                             result)
                    else Inr (num_leaf_tests1, result))
                 else Inr (num_leaf_tests1, result)))"

section \<open>Distance: leafTesting and postprocess\<close>

record DistanceRequest =
  enable_nearest_points :: bool

text \<open>
  \<^verbatim>\<open>DistanceResult\<close>: the minimum distance (the source's field \<^verbatim>\<open>min_distance\<close>),
  the two nearest points, the addresses of the two models and the two primitive ids.
\<close>

record DistanceResult =
  result_min_distance :: real
  nearest_points :: "Vec3f \<times> Vec3f"
  o1 :: nat
  o2 :: nat
  b1 :: int
  b2 :: int

text \<open>
  Modelled from the spec: the two overloads of \<^verbatim>\<open>DistanceResult::update\<close> are declared
  outside \<^verbatim>\<open>traversal_node_bvhs.cpp\<close>. The spec: "if the resulting distance improves
  on the Result's current minimum, the minimum, witness points (kept in local frame),
  and owning primitive ids are overwritten; ties are not special-cased (first
  improvement wins; equal distances do not replace the existing best)". The overload
  without points leaves the stored points as they are.
\<close>

definition update :: "real \<Rightarrow> nat \<Rightarrow> nat \<Rightarrow> int \<Rightarrow> int \<Rightarrow> DistanceResult \<Rightarrow> DistanceResult" where
  "update dis m1 m2 i1 i2 r =
     (if dis < result_min_distance r
      then r\<lparr>result_min_distance := dis, o1 := m1, o2 := m2, b1 := i1, b2 := i2\<rparr>
      else r)"

definition update_points ::
  "real \<Rightarrow> nat \<Rightarrow> nat \<Rightarrow> int \<Rightarrow> int \<Rightarrow> Vec3f \<Rightarrow> Vec3f \<Rightarrow> DistanceResult \<Rightarrow> DistanceResult" where
  "update_points dis m1 m2 i1 i2 Q1 Q2 r =
     (if dis < result_min_distance r
      then r\<lparr>result_min_distance := dis, nearest_points := (Q1, Q2),
             o1 := m1, o2 := m2, b1 := i1, b2 := i2\<rparr>
      else r)"

text \<open>
  \<^verbatim>\<open>details::meshDistanceOrientedNodeLeafTesting\<close> (lines 135 to 176), which every
  \<^verbatim>\<open>MeshDistanceTraversalNode*::leafTesting\<close> calls. \<open>n1\<close> and \<open>n2\<close> are the node
  indices, the source's arguments \<^verbatim>\<open>b1\<close> and \<^verbatim>\<open>b2\<close>.
\<close>

definition meshDistanceOrientedNodeLeafTesting ::
  "'bv env \<Rightarrow> int \<Rightarrow> int \<Rightarrow> DistanceRequest \<Rightarrow> int \<times> DistanceResult \<Rightarrow>
   error + (int \<times> DistanceResult)" where
  "meshDistanceOrientedNodeLeafTesting e n1 n2 request st =
    (case st of (num_leaf_tests0, result) \<Rightarrow>
     let num_leaf_tests1 = (if enable_statistics e then num_leaf_tests0 + 1 else num_leaf_tests0);
         primitive_id1 = primitiveId (model1 e) n1;
         primitive_id2 = primitiveId (model2 e) n2
     in case leaf_triangle (vertices1 e) (tri_indices1 e) primitive_id1 of
          Inl err \<Rightarrow> Inl err
        | Inr (t11, t12, t13) \<Rightarrow>
            (case leaf_triangle (vertices2 e) (tri_indices2 e) primitive_id2 of
               Inl err \<Rightarrow> Inl err
             | Inr (t21, t22, t23) \<Rightarrow>
                 (case triDistance e t11 t12 t13 t21 t22 t23 (R e) (T e) of
                    (dis, Q1, Q2) \<Rightarrow>
                      if enable_nearest_points request
                      then Inr (num_leaf_tests1,
                             update_points dis (address (model1 e)) (address (model2 e))
                               primitive_id1 primitive_id2 Q1 Q2 result)
                      else Inr (num_leaf_tests1,
                             update dis (address (model1 e)) (address (model2 e))
                               primitive_id1 primitive_id2 result))))"

text \<open>
  \<^verbatim>\<open>details::distancePostprocessOrientedNode\<close> (lines 513 to 523), which
  \<^verbatim>\<open>MeshDistanceTraversalNodeRSS::postprocess\<close> and its kIOS and OBBRSS siblings call
  with the node's \<^verbatim>\<open>model1\<close>, \<^verbatim>\<open>model2\<close>, \<^verbatim>\<open>tf1\<close>, \<^verbatim>\<open>request\<close> and \<^verbatim>\<open>*result\<close>.
\<close>

definition distancePostprocessOrientedNode ::
  "'bv env \<Rightarrow> DistanceRequest \<Rightarrow> DistanceResult \<Rightarrow> DistanceResult" where
  "distancePostprocessOrientedNode e request result =
    (if enable_nearest_points request \<and> o1 result = address (model1 e)
        \<and> o2 result = address (model2 e)
     then result\<lparr>nearest_points :=
            (transform (tf1 e) (fst (nearest_points result)),
             transform (tf1 e) (snd (nearest_points result)))\<rparr>
     else result)"

section \<open>Vocabulary of the properties\<close>

text \<open>
  The stack reads of a \<^verbatim>\<open>canStop(c)\<close> call are inside the vector: \<^verbatim>\<open>stack.back()\<close>
  needs a frame, and \<^verbatim>\<open>stack[stack.size() - 2]\<close>, read when the top frame's distance
  is greater than \<open>c\<close>, needs two.
\<close>

definition stack_reads_ok :: "real \<Rightarrow> node \<Rightarrow> bool" where
  "stack_reads_ok c s \<longleftrightarrow>
     stack s \<noteq> [] \<and> (c < d (last (stack s)) \<longrightarrow> 2 \<le> length (stack s))"

text \<open>The admissibility test of \<^verbatim>\<open>canStop\<close>, as the spec writes it, in the arithmetic of
  \<^verbatim>\<open>FCL_REAL\<close>.\<close>

definition admissible :: "'bv env \<Rightarrow> real \<Rightarrow> node \<Rightarrow> bool" where
  "admissible e c s \<longleftrightarrow>
     c \<ge> fmul (fp e) (w s) (fsub (fp e) (min_distance s) (abs_err s))
     \<and> fmul (fp e) c (fadd (fp e) 1 (rel_err s)) \<ge> fmul (fp e) (w s) (min_distance s)"

text \<open>
  The frame whose witness points and node indices an admissible call uses: the
  second from the top when the top frame's distance is greater than \<open>c\<close>, the top
  frame otherwise.
\<close>

definition selected_frame ::
  "real \<Rightarrow> ConservativeAdvancementStackData list \<Rightarrow> ConservativeAdvancementStackData" where
  "selected_frame c stk = (if c < d (last stk) then stk ! (length stk - 2) else last stk)"

text \<open>
  \<^verbatim>\<open>assert(c == d)\<close> is reached by an admissible call only, with \<open>d\<close> the selected
  frame's distance, and is checked only in a build without \<^verbatim>\<open>NDEBUG\<close>.
\<close>

definition assert_holds :: "'bv env \<Rightarrow> real \<Rightarrow> node \<Rightarrow> bool" where
  "assert_holds e c s \<longleftrightarrow>
     NDEBUG e \<or> (admissible e c s \<longrightarrow> c = d (selected_frame c (stack s)))"

text \<open>
  The stack a call leaves: with a top frame of greater distance than \<open>c\<close>, the frames
  below the second from the top, then the top frame; otherwise all frames but the top.
\<close>

definition stack_after ::
  "real \<Rightarrow> ConservativeAdvancementStackData list \<Rightarrow> ConservativeAdvancementStackData list" where
  "stack_after c stk =
     (if c < d (last stk) then take (length stk - 2) stk @ [last stk] else butlast stk)"

text \<open>
  The direction and the summed motion bound of a frame, as the two template
  specializations compute them (lines 641 to 646) and as the RSS node does (lines 840
  to 849).
\<close>

definition n_transformed_OBB :: "'bv env \<Rightarrow> ConservativeAdvancementStackData \<Rightarrow> Vec3f" where
  "n_transformed_OBB e fr =
     vscale (axis e (getBV (model1 e) (c1 fr)) 0) (vidx (P2 fr - P1 fr) 0)
     + vscale (axis e (getBV (model1 e) (c1 fr)) 1) (vidx (P2 fr - P1 fr) 1)
     + vscale (axis e (getBV (model1 e) (c1 fr)) 2) (vidx (P2 fr - P1 fr) 2)"

definition bound_OBB :: "'bv env \<Rightarrow> ConservativeAdvancementStackData \<Rightarrow> real" where
  "bound_OBB e fr =
     fadd (fp e)
       (computeMotionBound (motion1 e) (getBV (model1 e) (c1 fr)) (n_transformed_OBB e fr))
       (computeMotionBound (motion2 e) (getBV (model2 e) (c2 fr)) (n_transformed_OBB e fr))"

definition n_transformed_NodeRSS :: "'bv env \<Rightarrow> ConservativeAdvancementStackData \<Rightarrow> Vec3f" where
  "n_transformed_NodeRSS e fr =
     normalize_Vec3f (mat_vec (getCurrentRotation (motion1 e))
       (vscale (axis e (getBV (model1 e) (c1 fr)) 0) (vidx (P2 fr - P1 fr) 0)
        + vscale (axis e (getBV (model1 e) (c1 fr)) 1) (vidx (P2 fr - P1 fr) 2)
        + vscale (axis e (getBV (model1 e) (c1 fr)) 2) (vidx (P2 fr - P1 fr) 2)))"

definition bound_NodeRSS :: "'bv env \<Rightarrow> ConservativeAdvancementStackData \<Rightarrow> real" where
  "bound_NodeRSS e fr =
     fadd (fp e)
       (computeMotionBound (motion1 e) (getBV (model1 e) (c1 fr)) (n_transformed_NodeRSS e fr))
       (computeMotionBound (motion2 e) (getBV (model2 e) (c2 fr)) (- n_transformed_NodeRSS e fr))"

text \<open>The candidate time step for a distance \<open>c\<close> and a summed motion bound.\<close>

definition cur_delta_t_of :: "'bv env \<Rightarrow> real \<Rightarrow> real \<Rightarrow> real" where
  "cur_delta_t_of e c bound = (if bound \<le> c then 1 else fdiv (fp e) c bound)"

text \<open>
  The two triangles of a leaf pair, read as the leaf tests read them, and for the
  conservative advancement leaf test the triangle distance with its nearest points,
  the direction handed to the motion bounds and the summed motion bound (lines 776
  to 802).
\<close>

type_synonym triangle_points = "Vec3f \<times> Vec3f \<times> Vec3f"

definition leaf_pair :: "'bv env \<Rightarrow> int \<Rightarrow> int \<Rightarrow> error + (triangle_points \<times> triangle_points)" where
  "leaf_pair e n1 n2 =
     (case leaf_triangle (vertices1 e) (tri_indices1 e) (primitiveId (model1 e) n1) of
        Inl err \<Rightarrow> Inl err
      | Inr t1 \<Rightarrow>
          (case leaf_triangle (vertices2 e) (tri_indices2 e) (primitiveId (model2 e) n2) of
             Inl err \<Rightarrow> Inl err
           | Inr t2 \<Rightarrow> Inr (t1, t2)))"

definition leaf_triDistance ::
  "'bv env \<Rightarrow> triangle_points \<Rightarrow> triangle_points \<Rightarrow> real \<times> Vec3f \<times> Vec3f" where
  "leaf_triDistance e t1 t2 =
     (case t1 of (t11, t12, t13) \<Rightarrow>
      case t2 of (t21, t22, t23) \<Rightarrow> triDistance e t11 t12 t13 t21 t22 t23 (R e) (T e))"

definition leaf_n :: "'bv env \<Rightarrow> triangle_points \<Rightarrow> triangle_points \<Rightarrow> Vec3f" where
  "leaf_n e t1 t2 = (case leaf_triDistance e t1 t2 of (dis, Q1, Q2) \<Rightarrow> Q2 - Q1)"

definition leaf_n_transformed :: "'bv env \<Rightarrow> triangle_points \<Rightarrow> triangle_points \<Rightarrow> Vec3f" where
  "leaf_n_transformed e t1 t2 =
     normalize_Vec3f (mat_vec (getCurrentRotation (motion1 e)) (leaf_n e t1 t2))"

definition leaf_bound :: "'bv env \<Rightarrow> triangle_points \<Rightarrow> triangle_points \<Rightarrow> real" where
  "leaf_bound e t1 t2 =
     (case t1 of (t11, t12, t13) \<Rightarrow>
      case t2 of (t21, t22, t23) \<Rightarrow>
        fadd (fp e)
          (computeMotionBoundTri (motion1 e) t11 t12 t13 (leaf_n_transformed e t1 t2))
          (computeMotionBoundTri (motion2 e) t21 t22 t23 (- leaf_n_transformed e t1 t2)))"

text \<open>
  The candidate time steps a run computes, in order: one for each admissible
  \<^verbatim>\<open>canStop\<close> call and one for each \<^verbatim>\<open>leafTesting\<close> call, up to the first call that
  fails.
\<close>

fun cur_delta_t_seen :: "'bv env \<Rightarrow> call \<Rightarrow> node \<Rightarrow> real list" where
  "cur_delta_t_seen e (BVTesting n1 n2) s = []"
| "cur_delta_t_seen e (CanStop c) s =
     (if admissible e c s
      then [cur_delta_t_of e c (bound_NodeRSS e (selected_frame c (stack s)))]
      else [])"
| "cur_delta_t_seen e (LeafTesting n1 n2) s =
     (case leaf_pair e n1 n2 of
        Inl err \<Rightarrow> []
      | Inr (t1, t2) \<Rightarrow> [cur_delta_t_of e (fst (leaf_triDistance e t1 t2)) (leaf_bound e t1 t2)])"

fun seen :: "'bv env \<Rightarrow> call list \<Rightarrow> node \<Rightarrow> real list" where
  "seen e [] s = []"
| "seen e (x # xs) s =
     (case step e x s of
        Inl err \<Rightarrow> []
      | Inr s' \<Rightarrow> cur_delta_t_seen e x s @ seen e xs s')"

text \<open>
  The triangle distances the leaf tests of a run compute, in order, up to the first
  call that fails.
\<close>

fun distance_seen :: "'bv env \<Rightarrow> call \<Rightarrow> real list" where
  "distance_seen e (LeafTesting n1 n2) =
     (case leaf_pair e n1 n2 of
        Inl err \<Rightarrow> []
      | Inr (t1, t2) \<Rightarrow> [fst (leaf_triDistance e t1 t2)])"
| "distance_seen e x = []"

fun distances :: "'bv env \<Rightarrow> call list \<Rightarrow> node \<Rightarrow> real list" where
  "distances e [] s = []"
| "distances e (x # xs) s =
     (case step e x s of
        Inl err \<Rightarrow> []
      | Inr s' \<Rightarrow> distance_seen e x @ distances e xs s')"

text \<open>
  The direction as the spec words it, for comparison with the three versions of the
  code: the separation vector \<open>n = P2 - P1\<close> of the frame combined with the bounding
  volume's local axes as \<open>axis[0] * n[0] + axis[1] * n[1] + axis[2] * n[2]\<close>, rotated by
  body 1's current rotation and normalized; body 1's bound is asked for this direction
  and body 2's for its negation.
\<close>

definition spec_direction :: "'bv env \<Rightarrow> ConservativeAdvancementStackData \<Rightarrow> Vec3f" where
  "spec_direction e fr =
     normalize_Vec3f (mat_vec (getCurrentRotation (motion1 e))
       (vscale (axis e (getBV (model1 e) (c1 fr)) 0) (vidx (P2 fr - P1 fr) 0)
        + vscale (axis e (getBV (model1 e) (c1 fr)) 1) (vidx (P2 fr - P1 fr) 1)
        + vscale (axis e (getBV (model1 e) (c1 fr)) 2) (vidx (P2 fr - P1 fr) 2)))"

definition spec_bound :: "'bv env \<Rightarrow> ConservativeAdvancementStackData \<Rightarrow> real" where
  "spec_bound e fr =
     fadd (fp e)
       (computeMotionBound (motion1 e) (getBV (model1 e) (c1 fr)) (spec_direction e fr))
       (computeMotionBound (motion2 e) (getBV (model2 e) (c2 fr)) (- spec_direction e fr))"

text \<open>
  \<^verbatim>\<open>MeshDistanceTraversalNodeRSS::postprocess\<close> (lines 537 to 540) hands the node's
  models, \<^verbatim>\<open>tf1\<close>, request and result to the shared function; the kIOS and OBBRSS
  nodes do the same.
\<close>

definition postprocess_RSS :: "'bv env \<Rightarrow> DistanceRequest \<Rightarrow> DistanceResult \<Rightarrow> DistanceResult" where
  "postprocess_RSS e request result = distancePostprocessOrientedNode e request result"

text \<open>
  A distance query's leaf tests on a list of leaf pairs, in order, stopping at the
  first that fails, and the triangle distances they compute.
\<close>

fun distance_run ::
  "'bv env \<Rightarrow> DistanceRequest \<Rightarrow> (int \<times> int) list \<Rightarrow> int \<times> DistanceResult \<Rightarrow>
   error + (int \<times> DistanceResult)" where
  "distance_run e request [] st = Inr st"
| "distance_run e request (x # xs) st =
     (case meshDistanceOrientedNodeLeafTesting e (fst x) (snd x) request st of
        Inl err \<Rightarrow> Inl err
      | Inr st' \<Rightarrow> distance_run e request xs st')"

fun leaf_distances :: "'bv env \<Rightarrow> (int \<times> int) list \<Rightarrow> real list" where
  "leaf_distances e [] = []"
| "leaf_distances e (x # xs) =
     (case leaf_pair e (fst x) (snd x) of
        Inl err \<Rightarrow> []
      | Inr (t1, t2) \<Rightarrow> fst (leaf_triDistance e t1 t2) # leaf_distances e xs)"

section \<open>A concrete query\<close>

text \<open>
  Two one-triangle models two units apart, identity frames, body 1 moving along the
  second coordinate axis (its motion bound along a direction \<open>v\<close> is \<open>max 0 (9 * v[1])\<close>)
  and body 2 at rest, in a build that checks assertions, evaluated in the exact
  arithmetic. The theorems with hypotheses are instantiated at it.
\<close>

definition identity_matrix :: Matrix3f where
  "identity_matrix = Matrix3f (Vec3f 1 0 0) (Vec3f 0 1 0) (Vec3f 0 0 1)"

definition example_model :: "nat \<Rightarrow> Occupancy \<Rightarrow> unit BVHModel" where
  "example_model a occ =
     \<lparr>address = a, occupancy = occ, getBV = (\<lambda>i. ()), primitiveId = (\<lambda>i. i)\<rparr>"

definition example_motion1 :: "unit motion" where
  "example_motion1 =
     \<lparr>computeMotionBound = (\<lambda>bv v. max 0 (9 * vidx v 1)),
      computeMotionBoundTri = (\<lambda>t1 t2 t3 v. max 0 (9 * vidx v 1)),
      getCurrentRotation = identity_matrix\<rparr>"

definition example_motion2 :: "unit motion" where
  "example_motion2 =
     \<lparr>computeMotionBound = (\<lambda>bv v. 0),
      computeMotionBoundTri = (\<lambda>t1 t2 t3 v. 0),
      getCurrentRotation = identity_matrix\<rparr>"

definition identity_transform :: SimpleTransform where
  "identity_transform = \<lparr>transform = (\<lambda>v. v), quatRotation_transform = (\<lambda>v. v)\<rparr>"

definition example_env :: "unit env" where
  "example_env =
     \<lparr>model1 = example_model 1 Occupied,
      model2 = example_model 2 Occupied,
      vertices1 = [Vec3f 0 0 0, Vec3f 1 0 0, Vec3f 0 1 0],
      vertices2 = [Vec3f 0 0 2, Vec3f 1 0 2, Vec3f 0 1 2],
      tri_indices1 = [(0, 1, 2)],
      tri_indices2 = [(0, 1, 2)],
      R = identity_matrix,
      T = Vec3f 0 0 0,
      tf1 = identity_transform,
      tf2 = identity_transform,
      enable_statistics = True,
      NDEBUG = False,
      fp = exact_arith,
      cost_density = 1,
      axis = (\<lambda>bv i. if i = 0 then Vec3f 1 0 0 else if i = 1 then Vec3f 0 1 0 else Vec3f 0 0 1),
      motion1 = example_motion1,
      motion2 = example_motion2,
      intersect_Triangle = (\<lambda>q11 q12 q13 q21 q22 q23 M v. True),
      intersect_Triangle_contacts =
        (\<lambda>q11 q12 q13 q21 q22 q23 M v.
           Some ((Vec3f 0 0 0, Vec3f 1 0 0), 2, 1, Vec3f 0 0 1)),
      triDistance = (\<lambda>t11 t12 t13 t21 t22 t23 M v. (2, Vec3f 0 0 0, Vec3f 0 0 2)),
      distance = (\<lambda>M v bv1 bv2. (3, Vec3f 0 0 0, Vec3f 1 (- 2) 2)),
      overlap_part =
        (\<lambda>a1 a2 a3 a4 a5 a6. \<lparr>min_ = Vec3f 0 0 0, max_ = Vec3f 1 1 0\<rparr>)\<rparr>"

text \<open>
  A node state with two open frames: the lower frame has the distance 3 and the witness
  separation \<open>(1, -2, 2)\<close>, the top frame the distance 5. A third frame has the distance
  3 and the witness separation \<open>(1, 2, 2)\<close>.
\<close>

definition example_frame_a :: ConservativeAdvancementStackData where
  "example_frame_a = \<lparr>P1 = Vec3f 0 0 0, P2 = Vec3f 1 (- 2) 2, c1 = 1, c2 = 1, d = 3\<rparr>"

definition example_frame_b :: ConservativeAdvancementStackData where
  "example_frame_b = \<lparr>P1 = Vec3f 0 0 0, P2 = Vec3f 0 0 5, c1 = 2, c2 = 2, d = 5\<rparr>"

definition example_frame_c :: ConservativeAdvancementStackData where
  "example_frame_c = \<lparr>P1 = Vec3f 0 0 0, P2 = Vec3f 1 2 2, c1 = 3, c2 = 3, d = 3\<rparr>"

definition example_node :: node where
  "example_node =
     \<lparr>min_distance = 3, p1 = Vec3f 0 0 0, p2 = Vec3f 0 0 0,
      last_tri_id1 = 0, last_tri_id2 = 0,
      w = 1, abs_err = 0, rel_err = 0, delta_t = 1,
      stack = [example_frame_a, example_frame_b],
      num_bv_tests = 0, num_leaf_tests = 0\<rparr>"

text \<open>
  The concrete query in double arithmetic, the double nearest to 0.1 and a node state
  of weight \<open>w\<close> this double, \<open>min_distance = 30\<close> and one open frame of distance 3.
\<close>

definition example_env_double :: "unit env" where
  "example_env_double = example_env\<lparr>fp := double_arith\<rparr>"

definition double_0_1 :: real where
  "double_0_1 = 3602879701896397 / 36028797018963968"

definition example_node_double :: node where
  "example_node_double =
     example_node\<lparr>min_distance := 30, w := double_0_1, stack := [example_frame_c]\<rparr>"

text \<open>
  Collision requests and results for the concrete query: a budget of one contact with
  cost accumulation, without and with contact details; the contact of the two leaf
  triangles and their cost source.
\<close>

definition example_request_boolean :: CollisionRequest where
  "example_request_boolean = \<lparr>num_max_contacts = 1, enable_contact = False, enable_cost = True\<rparr>"

definition example_request_detail :: CollisionRequest where
  "example_request_detail = \<lparr>num_max_contacts = 1, enable_contact = True, enable_cost = True\<rparr>"

definition example_contact :: Contact where
  "example_contact = Contact 1 2 0 0"

definition example_contact_detail :: Contact where
  "example_contact_detail = Contact_detail 1 2 0 0 (Vec3f 0 0 0) (Vec3f 0 0 1) 1"

definition example_cost_source :: CostSource where
  "example_cost_source = CostSource \<lparr>min_ = Vec3f 0 0 0, max_ = Vec3f 1 1 0\<rparr> 1"

text \<open>
  A distance result of the concrete query whose best pair so far has the distance 2,
  the distance of the two leaf triangles.
\<close>

definition example_result :: DistanceResult where
  "example_result =
     \<lparr>result_min_distance = 2, nearest_points = (Vec3f 1 0 0, Vec3f 1 0 2),
      o1 = 1, o2 = 2, b1 = 7, b2 = 8\<rparr>"

section \<open>canStop: what a call returns and leaves\<close>

lemma if_less_min: "(if x < (t::real) then x else t) = min t x"
  by (simp add: min_def)

lemma two_last:
  assumes "2 \<le> length stk"
  shows "\<exists>xs a b. stk = xs @ [a, b]"
proof -
  from assms have ne: "stk \<noteq> []" by auto
  with assms have ne2: "butlast stk \<noteq> []" by (cases stk) (auto simp: Suc_le_eq)
  have "stk = butlast stk @ [last stk]" using ne by simp
  also have "butlast stk = butlast (butlast stk) @ [last (butlast stk)]" using ne2 by simp
  finally have "stk = butlast (butlast stk) @ [last (butlast stk), last stk]" by simp
  then show ?thesis by blast
qed

lemma collapse_pop:
  assumes "2 \<le> length stk"
  shows "butlast (stk[length stk - 2 := stk ! (length stk - 1)])
         = take (length stk - 2) stk @ [last stk]"
proof -
  from two_last[OF assms] obtain xs a b where stk: "stk = xs @ [a, b]" by blast
  show ?thesis unfolding stk by (simp add: nth_append list_update_append butlast_append)
qed

lemma length_stack_after:
  assumes "stk \<noteq> []" and "c < d (last stk) \<Longrightarrow> 2 \<le> length stk"
  shows "length (stack_after c stk) = length stk - 1"
  using assms by (auto simp: stack_after_def)

lemma canStop_OBB_admissible:
  assumes ok: "stack_reads_ok c s" and as: "assert_holds e c s" and adm: "admissible e c s"
  shows "canStop_OBB e c s = Inr (True,
           s\<lparr>delta_t := min (delta_t s)
                          (cur_delta_t_of e c (bound_OBB e (selected_frame c (stack s)))),
             stack := stack_after c (stack s)\<rparr>)"
proof (cases "c < d (last (stack s))")
  case True
  with ok have len: "2 \<le> length (stack s)" and ne: "stack s \<noteq> []"
    by (auto simp: stack_reads_ok_def)
  have nl: "\<not> length (stack s) < 2" using len by simp
  from as adm True
  have eq: "\<not> (\<not> NDEBUG e \<and> c \<noteq> d (stack s ! (length (stack s) - 2)))"
    by (auto simp: assert_holds_def selected_frame_def)
  have sel: "selected_frame c (stack s) = stack s ! (length (stack s) - 2)"
    using True by (simp add: selected_frame_def)
  have aft: "stack_after c (stack s) = take (length (stack s) - 2) (stack s) @ [last (stack s)]"
    using True by (simp add: stack_after_def)
  show ?thesis
    unfolding canStop_OBB_def sel aft bound_OBB_def n_transformed_OBB_def cur_delta_t_of_def
    by (simp only: adm[unfolded admissible_def] True ne nl eq Let_def if_True if_False
        sum.case prod.case collapse_pop[OF len] if_less_min simp_thms)
next
  case False
  with ok have ne: "stack s \<noteq> []"
    by (auto simp: stack_reads_ok_def)
  from as adm False have eq: "\<not> (\<not> NDEBUG e \<and> c \<noteq> d (last (stack s)))"
    by (auto simp: assert_holds_def selected_frame_def)
  have sel: "selected_frame c (stack s) = last (stack s)"
    using False by (simp add: selected_frame_def)
  have aft: "stack_after c (stack s) = butlast (stack s)"
    using False by (simp add: stack_after_def)
  show ?thesis
    unfolding canStop_OBB_def sel aft bound_OBB_def n_transformed_OBB_def cur_delta_t_of_def
    by (simp only: adm[unfolded admissible_def] False ne eq Let_def if_True if_False
        sum.case prod.case if_less_min simp_thms)
qed

lemma canStop_OBB_inadmissible:
  assumes ok: "stack_reads_ok c s" and nadm: "\<not> admissible e c s"
  shows "canStop_OBB e c s = Inr (False, s\<lparr>stack := stack_after c (stack s)\<rparr>)"
proof (cases "c < d (last (stack s))")
  case True
  with ok have len: "2 \<le> length (stack s)" and ne: "stack s \<noteq> []"
    by (auto simp: stack_reads_ok_def)
  have nl: "\<not> length (stack s) < 2" using len by simp
  have aft: "stack_after c (stack s) = take (length (stack s) - 2) (stack s) @ [last (stack s)]"
    using True by (simp add: stack_after_def)
  show ?thesis
    unfolding canStop_OBB_def aft
    by (simp only: nadm[unfolded admissible_def] True ne nl Let_def if_True if_False
        collapse_pop[OF len] simp_thms)
next
  case False
  with ok have ne: "stack s \<noteq> []"
    by (auto simp: stack_reads_ok_def)
  have aft: "stack_after c (stack s) = butlast (stack s)"
    using False by (simp add: stack_after_def)
  show ?thesis
    unfolding canStop_OBB_def aft
    by (simp only: nadm[unfolded admissible_def] False ne Let_def if_True if_False simp_thms)
qed

lemma canStop_OBB_assert_fails:
  assumes ok: "stack_reads_ok c s" and as: "\<not> assert_holds e c s"
  shows "canStop_OBB e c s = Inl AssertionFailed"
proof -
  from as have adm: "admissible e c s" and neq: "c \<noteq> d (selected_frame c (stack s))"
    and dbg: "\<not> NDEBUG e"
    by (auto simp: assert_holds_def)
  show ?thesis
  proof (cases "c < d (last (stack s))")
    case True
    with ok have len: "2 \<le> length (stack s)" and ne: "stack s \<noteq> []"
      by (auto simp: stack_reads_ok_def)
    have nl: "\<not> length (stack s) < 2" using len by simp
    from neq dbg True have eq: "\<not> NDEBUG e \<and> c \<noteq> d (stack s ! (length (stack s) - 2))"
      by (simp add: selected_frame_def)
    show ?thesis
      unfolding canStop_OBB_def
      by (simp only: adm[unfolded admissible_def] True ne nl eq Let_def if_True if_False
          sum.case prod.case simp_thms)
  next
    case False
    with ok have ne: "stack s \<noteq> []"
      by (auto simp: stack_reads_ok_def)
    from neq dbg False have eq: "\<not> NDEBUG e \<and> c \<noteq> d (last (stack s))"
      by (simp add: selected_frame_def)
    show ?thesis
      unfolding canStop_OBB_def
      by (simp only: adm[unfolded admissible_def] False ne eq Let_def if_True if_False
          sum.case prod.case simp_thms)
  qed
qed

lemma canStop_OBB_out_of_bounds:
  assumes "\<not> stack_reads_ok c s"
  shows "canStop_OBB e c s = Inl OutOfBounds"
proof (cases "stack s = []")
  case True
  show ?thesis
    unfolding canStop_OBB_def by (simp only: True simp_thms if_True if_cancel)
next
  case False
  with assms have gt: "c < d (last (stack s))" and len: "length (stack s) < 2"
    by (auto simp: stack_reads_ok_def)
  show ?thesis
    unfolding canStop_OBB_def
    by (simp only: False gt len Let_def if_True if_False sum.case if_cancel simp_thms)
qed

lemma canStop_NodeRSS_admissible:
  assumes ok: "stack_reads_ok c s" and as: "assert_holds e c s" and adm: "admissible e c s"
  shows "canStop_NodeRSS e c s = Inr (True,
           s\<lparr>delta_t := min (delta_t s)
                          (cur_delta_t_of e c (bound_NodeRSS e (selected_frame c (stack s)))),
             stack := stack_after c (stack s)\<rparr>)"
proof (cases "c < d (last (stack s))")
  case True
  with ok have len: "2 \<le> length (stack s)" and ne: "stack s \<noteq> []"
    by (auto simp: stack_reads_ok_def)
  have nl: "\<not> length (stack s) < 2" using len by simp
  from as adm True
  have eq: "\<not> (\<not> NDEBUG e \<and> c \<noteq> d (stack s ! (length (stack s) - 2)))"
    by (auto simp: assert_holds_def selected_frame_def)
  have sel: "selected_frame c (stack s) = stack s ! (length (stack s) - 2)"
    using True by (simp add: selected_frame_def)
  have aft: "stack_after c (stack s) = take (length (stack s) - 2) (stack s) @ [last (stack s)]"
    using True by (simp add: stack_after_def)
  show ?thesis
    unfolding canStop_NodeRSS_def sel aft bound_NodeRSS_def n_transformed_NodeRSS_def cur_delta_t_of_def
    by (simp only: adm[unfolded admissible_def] True ne nl eq Let_def if_True if_False
        sum.case prod.case collapse_pop[OF len] if_less_min simp_thms)
next
  case False
  with ok have ne: "stack s \<noteq> []"
    by (auto simp: stack_reads_ok_def)
  from as adm False have eq: "\<not> (\<not> NDEBUG e \<and> c \<noteq> d (last (stack s)))"
    by (auto simp: assert_holds_def selected_frame_def)
  have sel: "selected_frame c (stack s) = last (stack s)"
    using False by (simp add: selected_frame_def)
  have aft: "stack_after c (stack s) = butlast (stack s)"
    using False by (simp add: stack_after_def)
  show ?thesis
    unfolding canStop_NodeRSS_def sel aft bound_NodeRSS_def n_transformed_NodeRSS_def cur_delta_t_of_def
    by (simp only: adm[unfolded admissible_def] False ne eq Let_def if_True if_False
        sum.case prod.case if_less_min simp_thms)
qed

lemma canStop_NodeRSS_inadmissible:
  assumes ok: "stack_reads_ok c s" and nadm: "\<not> admissible e c s"
  shows "canStop_NodeRSS e c s = Inr (False, s\<lparr>stack := stack_after c (stack s)\<rparr>)"
proof (cases "c < d (last (stack s))")
  case True
  with ok have len: "2 \<le> length (stack s)" and ne: "stack s \<noteq> []"
    by (auto simp: stack_reads_ok_def)
  have nl: "\<not> length (stack s) < 2" using len by simp
  have aft: "stack_after c (stack s) = take (length (stack s) - 2) (stack s) @ [last (stack s)]"
    using True by (simp add: stack_after_def)
  show ?thesis
    unfolding canStop_NodeRSS_def aft
    by (simp only: nadm[unfolded admissible_def] True ne nl Let_def if_True if_False
        collapse_pop[OF len] simp_thms)
next
  case False
  with ok have ne: "stack s \<noteq> []"
    by (auto simp: stack_reads_ok_def)
  have aft: "stack_after c (stack s) = butlast (stack s)"
    using False by (simp add: stack_after_def)
  show ?thesis
    unfolding canStop_NodeRSS_def aft
    by (simp only: nadm[unfolded admissible_def] False ne Let_def if_True if_False simp_thms)
qed

lemma canStop_NodeRSS_assert_fails:
  assumes ok: "stack_reads_ok c s" and as: "\<not> assert_holds e c s"
  shows "canStop_NodeRSS e c s = Inl AssertionFailed"
proof -
  from as have adm: "admissible e c s" and neq: "c \<noteq> d (selected_frame c (stack s))"
    and dbg: "\<not> NDEBUG e"
    by (auto simp: assert_holds_def)
  show ?thesis
  proof (cases "c < d (last (stack s))")
    case True
    with ok have len: "2 \<le> length (stack s)" and ne: "stack s \<noteq> []"
      by (auto simp: stack_reads_ok_def)
    have nl: "\<not> length (stack s) < 2" using len by simp
    from neq dbg True have eq: "\<not> NDEBUG e \<and> c \<noteq> d (stack s ! (length (stack s) - 2))"
      by (simp add: selected_frame_def)
    show ?thesis
      unfolding canStop_NodeRSS_def
      by (simp only: adm[unfolded admissible_def] True ne nl eq Let_def if_True if_False
          sum.case prod.case simp_thms)
  next
    case False
    with ok have ne: "stack s \<noteq> []"
      by (auto simp: stack_reads_ok_def)
    from neq dbg False have eq: "\<not> NDEBUG e \<and> c \<noteq> d (last (stack s))"
      by (simp add: selected_frame_def)
    show ?thesis
      unfolding canStop_NodeRSS_def
      by (simp only: adm[unfolded admissible_def] False ne eq Let_def if_True if_False
          sum.case prod.case simp_thms)
  qed
qed

lemma canStop_NodeRSS_out_of_bounds:
  assumes "\<not> stack_reads_ok c s"
  shows "canStop_NodeRSS e c s = Inl OutOfBounds"
proof (cases "stack s = []")
  case True
  show ?thesis
    unfolding canStop_NodeRSS_def by (simp only: True simp_thms if_True if_cancel)
next
  case False
  with assms have gt: "c < d (last (stack s))" and len: "length (stack s) < 2"
    by (auto simp: stack_reads_ok_def)
  show ?thesis
    unfolding canStop_NodeRSS_def
    by (simp only: False gt len Let_def if_True if_False sum.case if_cancel simp_thms)
qed

lemma canStop_RSS_eq: "canStop_RSS e c s = canStop_OBB e c s"
  unfolding canStop_RSS_def canStop_OBB_def by (rule refl)

lemma canStop_OBB_cases:
  "canStop_OBB e c s =
     (if \<not> stack_reads_ok c s then Inl OutOfBounds
      else if \<not> assert_holds e c s then Inl AssertionFailed
      else if admissible e c s
      then Inr (True,
             s\<lparr>delta_t := min (delta_t s)
                            (cur_delta_t_of e c (bound_OBB e (selected_frame c (stack s)))),
               stack := stack_after c (stack s)\<rparr>)
      else Inr (False, s\<lparr>stack := stack_after c (stack s)\<rparr>))"
proof (cases "stack_reads_ok c s")
  case False
  show ?thesis
    by (simp only: canStop_OBB_out_of_bounds[OF False] False if_True simp_thms)
next
  case ok: True
  show ?thesis
  proof (cases "assert_holds e c s")
    case False
    show ?thesis
      by (simp only: canStop_OBB_assert_fails[OF ok False] ok False if_True if_False simp_thms)
  next
    case as: True
    show ?thesis
    proof (cases "admissible e c s")
      case True
      show ?thesis
        by (simp only: canStop_OBB_admissible[OF ok as True] ok as True if_True if_False
            simp_thms)
    next
      case False
      show ?thesis
        by (simp only: canStop_OBB_inadmissible[OF ok False] ok as False if_True if_False
            simp_thms)
    qed
  qed
qed

lemma canStop_NodeRSS_cases:
  "canStop_NodeRSS e c s =
     (if \<not> stack_reads_ok c s then Inl OutOfBounds
      else if \<not> assert_holds e c s then Inl AssertionFailed
      else if admissible e c s
      then Inr (True,
             s\<lparr>delta_t := min (delta_t s)
                            (cur_delta_t_of e c (bound_NodeRSS e (selected_frame c (stack s)))),
               stack := stack_after c (stack s)\<rparr>)
      else Inr (False, s\<lparr>stack := stack_after c (stack s)\<rparr>))"
proof (cases "stack_reads_ok c s")
  case False
  show ?thesis
    by (simp only: canStop_NodeRSS_out_of_bounds[OF False] False if_True simp_thms)
next
  case ok: True
  show ?thesis
  proof (cases "assert_holds e c s")
    case False
    show ?thesis
      by (simp only: canStop_NodeRSS_assert_fails[OF ok False] ok False if_True if_False simp_thms)
  next
    case as: True
    show ?thesis
    proof (cases "admissible e c s")
      case True
      show ?thesis
        by (simp only: canStop_NodeRSS_admissible[OF ok as True] ok as True if_True if_False
            simp_thms)
    next
      case False
      show ?thesis
        by (simp only: canStop_NodeRSS_inadmissible[OF ok False] ok as False if_True if_False
            simp_thms)
    qed
  qed
qed

lemma stack_after_overwrite:
  assumes "stk \<noteq> []" and "c < d (last stk) \<Longrightarrow> 2 \<le> length stk"
  shows "stack_after c stk =
           (if c < d (last stk) then butlast (stk[length stk - 2 := last stk])
            else butlast stk)"
proof (cases "c < d (last stk)")
  case True
  then have len: "2 \<le> length stk" by (rule assms(2))
  have "last stk = stk ! (length stk - 1)"
    using assms(1) by (rule last_conv_nth)
  then show ?thesis
    using True collapse_pop[OF len] by (simp add: stack_after_def)
next
  case False
  then show ?thesis by (simp add: stack_after_def)
qed

section \<open>The two arithmetics\<close>

lemma exact_arith_simps [simp]:
  "fadd exact_arith a b = a + b"
  "fsub exact_arith a b = a - b"
  "fmul exact_arith a b = a * b"
  "fdiv exact_arith a b = a / b"
  by (simp_all add: exact_arith_def)

lemma double_arith_simps:
  "fadd double_arith a b = round_to_double (a + b)"
  "fsub double_arith a b = round_to_double (a - b)"
  "fmul double_arith a b = round_to_double (a * b)"
  "fdiv double_arith a b = round_to_double (a / b)"
  by (simp_all add: double_arith_def)

lemma example_env_fp [simp]: "fp example_env = exact_arith"
  by (simp add: example_env_def)

lemma example_env_double_fp: "fp example_env_double = double_arith"
  by (simp add: example_env_double_def)

lemma round_to_double_exponent:
  assumes "2 powr of_int k \<le> \<bar>x\<bar>" and "\<bar>x\<bar> < 2 powr (of_int k + 1)"
  shows "round_to_double x
         = 2 powr (of_int k - 52) * of_int (round_half_even (x / 2 powr (of_int k - 52)))"
proof -
  have "0 < (2::real) powr of_int k" by simp
  with assms(1) have pos: "0 < \<bar>x\<bar>" by linarith
  then have nz: "x \<noteq> 0" by simp
  have "\<lfloor>log 2 \<bar>x\<bar>\<rfloor> = k"
    using assms pos by (simp add: floor_log_eq_powr_iff)
  then show ?thesis
    using nz by (simp add: round_to_double_def Let_def)
qed

lemma round_to_double_30: "round_to_double 30 = 30"
  using round_to_double_exponent[of 4 30]
  by (simp add: round_half_even_def powr_minus Let_def)

lemma round_to_double_3: "round_to_double 3 = 3"
  using round_to_double_exponent[of 1 3]
  by (simp add: round_half_even_def powr_minus Let_def)

lemma round_to_double_1: "round_to_double 1 = 1"
  using round_to_double_exponent[of 0 1]
  by (simp add: round_half_even_def powr_minus Let_def)

lemma round_to_double_tenth: "round_to_double (1 / 10) = double_0_1"
  using round_to_double_exponent[of "- 4" "1 / 10"]
  by (simp add: round_half_even_def powr_minus Let_def double_0_1_def)

lemma round_to_double_0_1_times_30: "round_to_double (double_0_1 * 30) = 3"
  using round_to_double_exponent[of 1 "double_0_1 * 30"]
  by (simp add: round_half_even_def powr_minus Let_def double_0_1_def)

lemma round_to_double_18: "round_to_double 18 = 18"
  using round_to_double_exponent[of 4 18]
  by (simp add: round_half_even_def powr_minus Let_def)

lemma round_to_double_sixth:
  "round_to_double (1 / 6) = 6004799503160661 / 36028797018963968"
  using round_to_double_exponent[of "- 3" "1 / 6"]
  by (simp add: round_half_even_def powr_minus Let_def)

lemma round_half_even_le: "round_half_even y \<le> \<lfloor>y\<rfloor> + 1"
  by (simp add: round_half_even_def Let_def)

lemma round_to_double_le_1:
  assumes "y < 1"
  shows "round_to_double y \<le> 1"
proof (cases "y \<le> 0")
  case True
  show ?thesis
  proof (cases "y = 0")
    case True
    then show ?thesis by (simp add: round_to_double_def)
  next
    case False
    with \<open>y \<le> 0\<close> have neg: "y < 0" by simp
    define u :: real where "u = 2 powr (of_int \<lfloor>log 2 \<bar>y\<bar>\<rfloor> - 52)"
    have upos: "0 < u" by (simp add: u_def)
    with neg have "y / u < 0" by (simp add: divide_neg_pos)
    then have "\<lfloor>y / u\<rfloor> < 0" by linarith
    with round_half_even_le[of "y / u"] have "round_half_even (y / u) \<le> 0" by linarith
    then have "of_int (round_half_even (y / u)) \<le> (0::real)" by simp
    with upos have "u * of_int (round_half_even (y / u)) \<le> 0"
      by (simp add: mult_le_0_iff)
    then show ?thesis using False by (simp add: round_to_double_def Let_def u_def)
  qed
next
  case False
  then have pos: "0 < y" by simp
  define k where "k = \<lfloor>log 2 \<bar>y\<bar>\<rfloor>"
  define u :: real where "u = 2 powr (of_int k - 52)"
  have upos: "0 < u" by (simp add: u_def)
  have "log 2 y < 0" using pos assms by simp
  then have "\<lfloor>log 2 y\<rfloor> < 0" by linarith
  moreover have "\<bar>y\<bar> = y" using pos by simp
  ultimately have kneg: "k \<le> - 1" unfolding k_def by (simp only:)
  have "\<lfloor>log 2 y\<rfloor> = k" using pos by (simp add: k_def)
  then have ub: "y < 2 powr (of_int k + 1)"
    using pos by (simp add: floor_log_eq_powr_iff)
  have "(2::real) powr (of_int k - 52) * 2 powr 53 = 2 powr ((of_int k - 52) + 53)"
    by (rule powr_add[symmetric])
  moreover have "(of_int k - 52) + 53 = (of_int k + 1 :: real)" by simp
  ultimately have split53: "2 powr (of_int k + 1) = u * 2 powr 53"
    unfolding u_def by (simp only:)
  from ub have "y / u < 2 powr 53"
    unfolding split53 using upos by (simp add: divide_less_eq mult.commute)
  then have "y / u < 2 ^ 53" by simp
  then have "\<lfloor>y / u\<rfloor> < 2 ^ 53" by (simp add: floor_less_iff)
  with round_half_even_le[of "y / u"] have "round_half_even (y / u) \<le> 2 ^ 53" by linarith
  then have "of_int (round_half_even (y / u)) \<le> (2 ^ 53 :: real)"
    by (metis of_int_le_iff of_int_numeral of_int_power)
  with upos have "u * of_int (round_half_even (y / u)) \<le> u * 2 ^ 53" by simp
  also have "u * 2 ^ 53 = 2 powr (of_int k + 1)" unfolding split53 by simp
  also have "\<dots> \<le> 2 powr 0" using kneg by (intro powr_mono) simp_all
  finally have "u * of_int (round_half_even (y / u)) \<le> 1" by simp
  then show ?thesis using pos by (simp add: round_to_double_def Let_def u_def k_def)
qed

section \<open>leafTesting of the RSS conservative advancement node: what a call leaves\<close>

lemma leafTesting_NodeRSS_fails:
  assumes "leaf_pair e n1 n2 = Inl err"
  shows "leafTesting_NodeRSS e n1 n2 s = Inl err"
  using assms
  unfolding leafTesting_NodeRSS_def leaf_pair_def
  by (simp add: Let_def split: sum.splits prod.splits)

lemma leafTesting_NodeRSS_returns:
  assumes "leaf_pair e n1 n2 = Inr (t1, t2)"
  shows "\<exists>s'. leafTesting_NodeRSS e n1 n2 s = Inr s'
           \<and> delta_t s' = min (delta_t s)
                (cur_delta_t_of e (fst (leaf_triDistance e t1 t2)) (leaf_bound e t1 t2))
           \<and> min_distance s' = min (min_distance s) (fst (leaf_triDistance e t1 t2))
           \<and> stack s' = stack s \<and> w s' = w s \<and> abs_err s' = abs_err s
           \<and> rel_err s' = rel_err s
           \<and> (if fst (leaf_triDistance e t1 t2) < min_distance s
               then p1 s' = fst (snd (leaf_triDistance e t1 t2))
                    \<and> p2 s' = snd (snd (leaf_triDistance e t1 t2))
                    \<and> last_tri_id1 s' = primitiveId (model1 e) n1
                    \<and> last_tri_id2 s' = primitiveId (model2 e) n2
               else p1 s' = p1 s \<and> p2 s' = p2 s
                    \<and> last_tri_id1 s' = last_tri_id1 s \<and> last_tri_id2 s' = last_tri_id2 s)"
proof -
  obtain t11 t12 t13 where t1: "t1 = (t11, t12, t13)" by (cases t1) auto
  obtain t21 t22 t23 where t2: "t2 = (t21, t22, t23)" by (cases t2) auto
  obtain dis Q1 Q2 where td: "triDistance e t11 t12 t13 t21 t22 t23 (R e) (T e) = (dis, Q1, Q2)"
    by (cases "triDistance e t11 t12 t13 t21 t22 t23 (R e) (T e)") auto
  from assms have l1: "leaf_triangle (vertices1 e) (tri_indices1 e) (primitiveId (model1 e) n1)
                       = Inr (t11, t12, t13)"
    and l2: "leaf_triangle (vertices2 e) (tri_indices2 e) (primitiveId (model2 e) n2)
                       = Inr (t21, t22, t23)"
    unfolding leaf_pair_def t1 t2 by (auto split: sum.splits)
  have ltd: "leaf_triDistance e (t11, t12, t13) (t21, t22, t23) = (dis, Q1, Q2)"
    unfolding leaf_triDistance_def by (simp add: td)
  have lb: "leaf_bound e (t11, t12, t13) (t21, t22, t23) =
      fadd (fp e)
        (computeMotionBoundTri (motion1 e) t11 t12 t13
           (normalize_Vec3f (mat_vec (getCurrentRotation (motion1 e)) (Q2 - Q1))))
        (computeMotionBoundTri (motion2 e) t21 t22 t23
           (- normalize_Vec3f (mat_vec (getCurrentRotation (motion1 e)) (Q2 - Q1))))"
    unfolding leaf_bound_def leaf_n_transformed_def leaf_n_def ltd by simp
  show ?thesis
    unfolding leafTesting_NodeRSS_def t1 t2 ltd lb cur_delta_t_of_def
    by (simp add: l1 l2 td Let_def min_def)
qed

section \<open>Runs of the RSS conservative advancement node\<close>

lemma BVTesting_NodeRSS_fields:
  "delta_t (snd (BVTesting_NodeRSS e n1 n2 s)) = delta_t s
   \<and> min_distance (snd (BVTesting_NodeRSS e n1 n2 s)) = min_distance s
   \<and> p1 (snd (BVTesting_NodeRSS e n1 n2 s)) = p1 s
   \<and> p2 (snd (BVTesting_NodeRSS e n1 n2 s)) = p2 s
   \<and> last_tri_id1 (snd (BVTesting_NodeRSS e n1 n2 s)) = last_tri_id1 s
   \<and> last_tri_id2 (snd (BVTesting_NodeRSS e n1 n2 s)) = last_tri_id2 s"
  unfolding BVTesting_NodeRSS_def
  by (simp add: Let_def split: prod.splits)

lemma canStop_NodeRSS_fields:
  assumes "canStop_NodeRSS e c s = Inr (b, s')"
  shows "delta_t s' = fold min (cur_delta_t_seen e (CanStop c) s) (delta_t s)
         \<and> min_distance s' = min_distance s \<and> p1 s' = p1 s \<and> p2 s' = p2 s
         \<and> last_tri_id1 s' = last_tri_id1 s \<and> last_tri_id2 s' = last_tri_id2 s"
proof (cases "admissible e c s")
  case True
  with assms have "s' = s\<lparr>delta_t := min (delta_t s)
                            (cur_delta_t_of e c (bound_NodeRSS e (selected_frame c (stack s)))),
                          stack := stack_after c (stack s)\<rparr>"
    by (auto simp: canStop_NodeRSS_cases split: if_splits)
  then show ?thesis using True by (simp add: min.commute)
next
  case False
  with assms have "s' = s\<lparr>stack := stack_after c (stack s)\<rparr>"
    by (auto simp: canStop_NodeRSS_cases split: if_splits)
  then show ?thesis using False by simp
qed

lemma step_delta_t:
  assumes "step e x s = Inr s'"
  shows "delta_t s' = fold min (cur_delta_t_seen e x s) (delta_t s)"
proof (cases x)
  case (BVTesting n1 n2)
  with assms show ?thesis using BVTesting_NodeRSS_fields[of e n1 n2 s] by auto
next
  case (CanStop c)
  with assms obtain b where "canStop_NodeRSS e c s = Inr (b, s')"
    by (auto split: sum.splits)
  from canStop_NodeRSS_fields[OF this] show ?thesis using CanStop by simp
next
  case (LeafTesting n1 n2)
  with assms have lt: "leafTesting_NodeRSS e n1 n2 s = Inr s'" by simp
  show ?thesis
  proof (cases "leaf_pair e n1 n2")
    case (Inl err)
    from leafTesting_NodeRSS_fails[OF this, of s] lt show ?thesis by simp
  next
    case (Inr tt)
    obtain t1 t2 where tt: "tt = (t1, t2)" by (cases tt) auto
    from leafTesting_NodeRSS_returns[OF Inr[unfolded tt], of s] lt
    show ?thesis using LeafTesting Inr tt by (auto simp: min.commute)
  qed
qed

lemma run_delta_t:
  "run e xs s = Inr s' \<Longrightarrow> delta_t s' = fold min (seen e xs s) (delta_t s)"
proof (induction xs arbitrary: s)
  case Nil
  then show ?case by simp
next
  case (Cons x xs)
  from Cons.prems obtain s1 where st: "step e x s = Inr s1" and rn: "run e xs s1 = Inr s'"
    by (auto split: sum.splits)
  from Cons.IH[OF rn] step_delta_t[OF st] show ?case
    using st by simp
qed

lemma fold_min_le: "fold min xs (a::real) \<le> a"
proof (induction xs arbitrary: a)
  case Nil
  show ?case by simp
next
  case (Cons x xs)
  have "fold min xs (min x a) \<le> min x a" by (rule Cons.IH)
  then show ?case by simp
qed

lemma fold_min_Min: "fold min xs (a::real) = Min (insert a (set xs))"
  using Min.set_eq_fold[of a xs] by simp

lemma run_append:
  "run e (xs @ ys) s = Inr s'' \<Longrightarrow> \<exists>s'. run e xs s = Inr s' \<and> run e ys s' = Inr s''"
proof (induction xs arbitrary: s)
  case Nil
  then show ?case by simp
next
  case (Cons x xs)
  from Cons.prems obtain s1 where st: "step e x s = Inr s1"
    and rn: "run e (xs @ ys) s1 = Inr s''"
    by (auto split: sum.splits)
  from Cons.IH[OF rn] show ?case using st by simp
qed

lemma run_fails_at:
  "run e xs s = Inl err
   \<Longrightarrow> \<exists>ys x zs s1. xs = ys @ x # zs \<and> run e ys s = Inr s1 \<and> step e x s1 = Inl err"
proof (induction xs arbitrary: s)
  case Nil
  then show ?case by simp
next
  case (Cons x xs)
  show ?case
  proof (cases "step e x s")
    case (Inl err')
    with Cons.prems have "err' = err" by simp
    with Inl have "x # xs = [] @ x # xs \<and> run e [] s = Inr s \<and> step e x s = Inl err"
      by simp
    then show ?thesis by blast
  next
    case (Inr s1)
    with Cons.prems have "run e xs s1 = Inl err" by simp
    from Cons.IH[OF this] obtain ys y zs s2 where
      xs: "xs = ys @ y # zs" and r: "run e ys s1 = Inr s2" and st: "step e y s2 = Inl err"
      by blast
    from xs r Inr have "x # xs = (x # ys) @ y # zs \<and> run e (x # ys) s = Inr s2"
      by simp
    with st show ?thesis by blast
  qed
qed

lemma Min_insert_below:
  assumes "x \<in> set xs" and "x \<le> (a::real)"
  shows "Min (insert a (set xs)) = Min (set xs)"
proof -
  have ne: "set xs \<noteq> {}" using assms(1) by auto
  have "Min (set xs) \<le> x" using assms(1) by simp
  with assms(2) have "Min (set xs) \<le> a" by simp
  moreover have "Min (insert a (set xs)) = min a (Min (set xs))"
    using ne by (intro Min_insert) simp_all
  ultimately show ?thesis by (simp only: min_absorb2)
qed

lemma fdiv_le_1:
  assumes "fp e = exact_arith \<or> fp e = double_arith" and "c / bound < 1"
  shows "fdiv (fp e) c bound \<le> 1"
  using assms round_to_double_le_1[of "c / bound"]
  by (auto simp: double_arith_simps)

lemma cur_delta_t_of_le_1:
  assumes "fp e = exact_arith \<or> fp e = double_arith" and "0 \<le> bound"
  shows "cur_delta_t_of e c bound \<le> 1"
proof (cases "bound \<le> c")
  case True
  then show ?thesis by (simp add: cur_delta_t_of_def)
next
  case False
  then have lt: "c < bound" by simp
  have "c / bound < 1"
  proof (cases "bound = 0")
    case True
    then show ?thesis by simp
  next
    case nz: False
    with assms(2) have pos: "0 < bound" by simp
    with lt show ?thesis by (simp add: divide_less_eq)
  qed
  from fdiv_le_1[OF assms(1) this] False show ?thesis
    by (simp add: cur_delta_t_of_def)
qed
section \<open>The concrete query, evaluated\<close>

lemma example_node_reads_ok: "stack_reads_ok 3 example_node"
  by (simp add: stack_reads_ok_def example_node_def)

lemma example_node_admissible: "admissible example_env 3 example_node"
  by (simp add: admissible_def example_node_def)

lemma example_node_assert_holds: "assert_holds example_env 3 example_node"
  by (simp add: assert_holds_def selected_frame_def example_node_def
      example_frame_a_def example_frame_b_def)

lemma example_node_double_reads_ok: "stack_reads_ok 3 example_node_double"
  by (simp add: stack_reads_ok_def example_node_double_def example_frame_c_def)

lemma example_node_double_assert_holds:
  "assert_holds example_env_double 3 example_node_double"
  by (simp add: assert_holds_def selected_frame_def example_node_double_def
      example_frame_c_def)

text \<open>In the double query the exact product \<open>w * (min_distance - abs_err)\<close> is greater
  than \<open>c = 3\<close> and its rounding is 3.\<close>

lemma example_node_double_exact_product:
  "3 < w example_node_double * (min_distance example_node_double - abs_err example_node_double)
   \<and> fmul double_arith (w example_node_double)
        (fsub double_arith (min_distance example_node_double) (abs_err example_node_double))
      = 3"
  by (simp add: example_node_double_def example_node_def double_arith_simps
      round_to_double_30 round_to_double_0_1_times_30, simp add: double_0_1_def)

lemma example_node_double_admissible: "admissible example_env_double 3 example_node_double"
  by (simp add: admissible_def example_node_double_def example_node_def
      example_env_double_fp double_arith_simps round_to_double_30
      round_to_double_0_1_times_30 round_to_double_1 round_to_double_3)

lemma example_double_selected_frame:
  "selected_frame 3 (stack example_node_double) = example_frame_c"
  by (simp add: selected_frame_def example_node_double_def example_frame_c_def)

lemma example_double_stack_after: "stack_after 3 (stack example_node_double) = []"
  by (simp add: stack_after_def example_node_double_def example_frame_c_def)

lemma example_double_bound_OBB: "bound_OBB example_env_double example_frame_c = 18"
  by (simp add: bound_OBB_def n_transformed_OBB_def example_env_double_def example_env_def
      example_frame_c_def example_model_def example_motion1_def example_motion2_def
      double_arith_simps round_to_double_18)

lemma example_double_canStop_OBB:
  "canStop_OBB example_env_double 3 example_node_double
   = Inr (True, example_node_double\<lparr>delta_t := 6004799503160661 / 36028797018963968,
                                      stack := []\<rparr>)"
proof -
  have "min (delta_t example_node_double) (cur_delta_t_of example_env_double 3 18)
        = 6004799503160661 / 36028797018963968"
    by (simp add: example_node_double_def example_node_def cur_delta_t_of_def
        example_env_double_fp double_arith_simps round_to_double_sixth)
  then show ?thesis
    using canStop_OBB_admissible[OF example_node_double_reads_ok
        example_node_double_assert_holds example_node_double_admissible]
    by (simp only: example_double_selected_frame example_double_stack_after
        example_double_bound_OBB)
qed

lemma example_node_reads_ok_1: "stack_reads_ok 1 example_node"
  by (simp add: stack_reads_ok_def example_node_def)

lemma example_node_inadmissible_1: "\<not> admissible example_env 1 example_node"
  by (simp add: admissible_def example_node_def)

lemma sqrt_9: "sqrt 9 = 3"
  by (rule real_sqrt_unique) simp_all

lemma sqrt_4: "sqrt 4 = 2"
  by (rule real_sqrt_unique) simp_all

lemma example_selected_frame: "selected_frame 3 (stack example_node) = example_frame_a"
  by (simp add: selected_frame_def example_node_def example_frame_b_def)

lemma example_stack_after: "stack_after 3 (stack example_node) = [example_frame_b]"
  by (simp add: stack_after_def example_node_def example_frame_b_def)

lemma example_n_transformed_OBB:
  "n_transformed_OBB example_env example_frame_a = Vec3f 1 (- 2) 2"
  by (simp add: n_transformed_OBB_def example_env_def example_frame_a_def example_model_def)

lemma example_n_transformed_NodeRSS:
  "n_transformed_NodeRSS example_env example_frame_a = Vec3f (1 / 3) (2 / 3) (2 / 3)"
  by (simp add: n_transformed_NodeRSS_def example_env_def example_frame_a_def
      example_model_def example_motion1_def identity_matrix_def normalize_Vec3f_def
      vlength_def sqrLength_def sqrt_9)

lemma example_bound_OBB: "bound_OBB example_env example_frame_a = 0"
  unfolding bound_OBB_def example_n_transformed_OBB
  by (simp add: example_env_def example_motion1_def example_motion2_def)

lemma example_bound_NodeRSS: "bound_NodeRSS example_env example_frame_a = 6"
  unfolding bound_NodeRSS_def example_n_transformed_NodeRSS
  by (simp add: example_env_def example_motion1_def example_motion2_def)

lemma example_canStop_OBB:
  "canStop_OBB example_env 3 example_node
   = Inr (True, example_node\<lparr>delta_t := 1, stack := [example_frame_b]\<rparr>)"
proof -
  have "min (delta_t example_node) (cur_delta_t_of example_env 3 0) = 1"
    by (simp add: example_node_def cur_delta_t_of_def)
  then show ?thesis
    using canStop_OBB_admissible[OF example_node_reads_ok example_node_assert_holds
        example_node_admissible]
    by (simp only: example_selected_frame example_stack_after example_bound_OBB)
qed

lemma example_canStop_NodeRSS:
  "canStop_NodeRSS example_env 3 example_node
   = Inr (True, example_node\<lparr>delta_t := 1 / 2, stack := [example_frame_b]\<rparr>)"
proof -
  have "min (delta_t example_node) (cur_delta_t_of example_env 3 6) = 1 / 2"
    by (simp add: example_node_def cur_delta_t_of_def)
  then show ?thesis
    using canStop_NodeRSS_admissible[OF example_node_reads_ok example_node_assert_holds
        example_node_admissible]
    by (simp only: example_selected_frame example_stack_after example_bound_NodeRSS)
qed

lemma example_leaf_pair:
  "leaf_pair example_env 0 0
   = Inr ((Vec3f 0 0 0, Vec3f 1 0 0, Vec3f 0 1 0), (Vec3f 0 0 2, Vec3f 1 0 2, Vec3f 0 1 2))"
  by (simp add: leaf_pair_def leaf_triangle_def at_int_def at_nat_def example_env_def
      example_model_def)

lemma example_leaf_triDistance:
  "leaf_triDistance example_env t1 t2 = (2, Vec3f 0 0 0, Vec3f 0 0 2)"
  by (simp add: leaf_triDistance_def example_env_def split: prod.splits)

lemma example_leaf_bound: "leaf_bound example_env t1 t2 = 0"
  by (simp add: leaf_bound_def leaf_n_transformed_def leaf_n_def example_leaf_triDistance
      normalize_Vec3f_def vlength_def sqrLength_def sqrt_4 split: prod.splits)
    (simp add: example_env_def example_motion1_def example_motion2_def identity_matrix_def)

section \<open>Collision leafTesting: contacts and cost sources\<close>

lemma addContacts_loop_numContacts:
  "addContacts_loop e i1 i2 cs nrm pen i n r = Inr r'
   \<Longrightarrow> numContacts r' = numContacts r + (n - i) \<and> cost_sources r' = cost_sources r"
proof (induction e i1 i2 cs nrm pen i n r rule: addContacts_loop.induct)
  case (1 e i1 i2 cs nrm pen i n r)
  show ?case
  proof (cases "i < n")
    case False
    with "1.prems" show ?thesis by simp
  next
    case True
    with "1.prems" obtain pt where pt: "contacts_at cs i = Inr pt"
      by (cases "contacts_at cs i") simp_all
    let ?r1 = "addContact
                 (Contact_detail (address (model1 e)) (address (model2 e)) i1 i2
                    (transform (tf1 e) pt) (quatRotation_transform (tf1 e) nrm) pen) r"
    from "1.prems" True pt
    have rec: "addContacts_loop e i1 i2 cs nrm pen (i + 1) n ?r1 = Inr r'"
      by simp
    from "1.IH"[OF True pt rec]
    have "numContacts r' = numContacts ?r1 + (n - (i + 1))"
      and "cost_sources r' = cost_sources ?r1" by simp_all
    with True show ?thesis by (simp add: numContacts_def addContact_def)
  qed
qed

declare addContacts_loop.simps [simp del]

lemma example_leaf_pair_occ:
  "leaf_pair (example_env\<lparr>model1 := example_model 1 occ1, model2 := example_model 2 occ2\<rparr>) 0 0
   = Inr ((Vec3f 0 0 0, Vec3f 1 0 0, Vec3f 0 1 0), (Vec3f 0 0 2, Vec3f 1 0 2, Vec3f 0 1 2))"
  by (simp add: leaf_pair_def leaf_triangle_def at_int_def at_nat_def example_env_def
      example_model_def)

lemma leaf_pair_triangles:
  assumes "leaf_pair e n1 n2 = Inr (t1, t2)"
  shows "leaf_triangle (vertices1 e) (tri_indices1 e) (primitiveId (model1 e) n1) = Inr t1
         \<and> leaf_triangle (vertices2 e) (tri_indices2 e) (primitiveId (model2 e) n2) = Inr t2"
  using assms unfolding leaf_pair_def by (auto split: sum.splits)

lemma boolean_branch_adds_contact:
  assumes lp: "leaf_pair e n1 n2 = Inr ((q11, q12, q13), (q21, q22, q23))"
    and occ: "isOccupied (model1 e)" "isOccupied (model2 e)"
    and nc: "\<not> enable_contact request"
    and hit: "intersect_Triangle e q11 q12 q13 q21 q22 q23 (R e) (T e)"
  shows "\<exists>k' r'. meshCollisionOrientedNodeLeafTesting e n1 n2 request (k, r) = Inr (k', r')
           \<and> contacts r' = contacts r @ [Contact (address (model1 e)) (address (model2 e))
                                           (primitiveId (model1 e) n1)
                                           (primitiveId (model2 e) n2)]"
  using leaf_pair_triangles[OF lp] occ nc hit
  unfolding meshCollisionOrientedNodeLeafTesting_def
  by (simp add: Let_def addContact_def addCostSource_def)

lemma detail_branch_within_budget:
  assumes ec: "enable_contact request"
    and ret: "meshCollisionOrientedNodeLeafTesting e n1 n2 request (k, r) = Inr (k', r')"
    and bud: "numContacts r \<le> num_max_contacts request"
  shows "numContacts r' \<le> num_max_contacts request"
proof -
  from ret obtain t1 t2 where lp: "leaf_pair e n1 n2 = Inr (t1, t2)"
    unfolding meshCollisionOrientedNodeLeafTesting_def leaf_pair_def
    by (auto simp: Let_def split: sum.splits)
  obtain q11 q12 q13 where t1: "t1 = (q11, q12, q13)" by (cases t1) auto
  obtain q21 q22 q23 where t2: "t2 = (q21, q22, q23)" by (cases t2) auto
  note tri = leaf_pair_triangles[OF lp, unfolded t1 t2]
  show ?thesis
  proof (cases "isOccupied (model1 e) \<and> isOccupied (model2 e)")
    case False
    with ret tri have "contacts r' = contacts r"
      unfolding meshCollisionOrientedNodeLeafTesting_def
      by (auto simp: Let_def addCostSource_def split: if_splits)
    with bud show ?thesis by (simp add: numContacts_def)
  next
    case occ: True
    show ?thesis
    proof (cases "intersect_Triangle_contacts e q11 q12 q13 q21 q22 q23 (R e) (T e)")
      case None
      with ret tri occ ec have "contacts r' = contacts r"
        unfolding meshCollisionOrientedNodeLeafTesting_def
        by (auto simp: Let_def addCostSource_def split: if_splits)
      with bud show ?thesis by (simp add: numContacts_def)
    next
      case (Some res)
      obtain cs n0 pen nrm where res: "res = (cs, n0, pen, nrm)" by (cases res) auto
      let ?n = "(if num_max_contacts request < numContacts r + n0
                 then (if num_max_contacts request > numContacts r
                       then num_max_contacts request - numContacts r else 0)
                 else n0)"
      from ret tri occ ec Some res obtain r1 where
        loop: "addContacts_loop e (primitiveId (model1 e) n1) (primitiveId (model2 e) n2)
                 cs nrm pen 0 ?n r = Inr r1"
        and r': "numContacts r' = numContacts r1"
        unfolding meshCollisionOrientedNodeLeafTesting_def
        by (auto simp: Let_def addCostSource_def numContacts_def split: if_splits sum.splits)
      from addContacts_loop_numContacts[OF loop]
      have "numContacts r1 = numContacts r + ?n" by simp
      with r' bud show ?thesis by (auto split: if_splits)
    qed
  qed
qed

section \<open>Minimum distance: leaf tests and runs\<close>

lemma meshDistance_fails:
  assumes "leaf_pair e n1 n2 = Inl err"
  shows "meshDistanceOrientedNodeLeafTesting e n1 n2 request (k, r) = Inl err"
  using assms
  unfolding meshDistanceOrientedNodeLeafTesting_def leaf_pair_def
  by (simp add: Let_def split: sum.splits prod.splits)

lemma meshDistance_returns:
  assumes "leaf_pair e n1 n2 = Inr (t1, t2)"
  shows "meshDistanceOrientedNodeLeafTesting e n1 n2 request (k, r)
         = Inr (if enable_statistics e then k + 1 else k,
                if enable_nearest_points request
                then update_points (fst (leaf_triDistance e t1 t2))
                       (address (model1 e)) (address (model2 e))
                       (primitiveId (model1 e) n1) (primitiveId (model2 e) n2)
                       (fst (snd (leaf_triDistance e t1 t2)))
                       (snd (snd (leaf_triDistance e t1 t2))) r
                else update (fst (leaf_triDistance e t1 t2))
                       (address (model1 e)) (address (model2 e))
                       (primitiveId (model1 e) n1) (primitiveId (model2 e) n2) r)"
proof -
  obtain t11 t12 t13 where t1: "t1 = (t11, t12, t13)" by (cases t1) auto
  obtain t21 t22 t23 where t2: "t2 = (t21, t22, t23)" by (cases t2) auto
  obtain dis Q1 Q2 where td: "triDistance e t11 t12 t13 t21 t22 t23 (R e) (T e) = (dis, Q1, Q2)"
    by (cases "triDistance e t11 t12 t13 t21 t22 t23 (R e) (T e)") auto
  note tri = leaf_pair_triangles[OF assms, unfolded t1 t2]
  have ltd: "leaf_triDistance e (t11, t12, t13) (t21, t22, t23) = (dis, Q1, Q2)"
    unfolding leaf_triDistance_def by (simp add: td)
  show ?thesis
    unfolding meshDistanceOrientedNodeLeafTesting_def t1 t2 ltd
    by (simp add: tri td Let_def)
qed

lemma meshDistance_min:
  assumes "meshDistanceOrientedNodeLeafTesting e n1 n2 request (k, r) = Inr (k', r')"
  shows "result_min_distance r'
         = fold min (leaf_distances e [(n1, n2)]) (result_min_distance r)"
proof (cases "leaf_pair e n1 n2")
  case (Inl err)
  from meshDistance_fails[OF this, of request k r] assms show ?thesis by simp
next
  case (Inr tt)
  obtain t1 t2 where tt: "tt = (t1, t2)" by (cases tt) auto
  from meshDistance_returns[OF Inr[unfolded tt], of request k r] assms
  show ?thesis using Inr tt
    by (auto simp: update_def update_points_def min_def split: if_splits)
qed

lemma distance_run_min:
  "distance_run e request xs (k, r) = Inr (k', r')
   \<Longrightarrow> result_min_distance r' = fold min (leaf_distances e xs) (result_min_distance r)"
proof (induction xs arbitrary: k r)
  case Nil
  then show ?case by simp
next
  case (Cons x xs)
  obtain n1 n2 where x: "x = (n1, n2)" by (cases x) auto
  from Cons.prems obtain k1 r1 where
    st: "meshDistanceOrientedNodeLeafTesting e n1 n2 request (k, r) = Inr (k1, r1)"
    and rn: "distance_run e request xs (k1, r1) = Inr (k', r')"
    unfolding x by (auto split: sum.splits)
  have lp: "\<exists>t1 t2. leaf_pair e n1 n2 = Inr (t1, t2)"
  proof (cases "leaf_pair e n1 n2")
    case (Inl err)
    from meshDistance_fails[OF this, of request k r] st show ?thesis by simp
  next
    case (Inr tt)
    then show ?thesis by (cases tt) auto
  qed
  then obtain t1 t2 where lp': "leaf_pair e n1 n2 = Inr (t1, t2)" by blast
  from meshDistance_min[OF st] lp'
  have "result_min_distance r1
        = min (fst (leaf_triDistance e t1 t2)) (result_min_distance r)" by simp
  with Cons.IH[OF rn] lp' show ?case unfolding x by simp
qed

lemma step_min_distance:
  assumes "step e x s = Inr s'"
  shows "min_distance s' = fold min (distance_seen e x) (min_distance s)"
proof (cases x)
  case (BVTesting n1 n2)
  with assms show ?thesis using BVTesting_NodeRSS_fields[of e n1 n2 s] by auto
next
  case (CanStop c)
  with assms obtain b where "canStop_NodeRSS e c s = Inr (b, s')"
    by (auto split: sum.splits)
  from canStop_NodeRSS_fields[OF this] show ?thesis using CanStop by simp
next
  case (LeafTesting n1 n2)
  with assms have lt: "leafTesting_NodeRSS e n1 n2 s = Inr s'" by simp
  show ?thesis
  proof (cases "leaf_pair e n1 n2")
    case (Inl err)
    from leafTesting_NodeRSS_fails[OF this, of s] lt show ?thesis by simp
  next
    case (Inr tt)
    obtain t1 t2 where tt: "tt = (t1, t2)" by (cases tt) auto
    from leafTesting_NodeRSS_returns[OF Inr[unfolded tt], of s] lt
    show ?thesis using LeafTesting Inr tt by (auto simp: min.commute)
  qed
qed

lemma run_min_distance:
  "run e xs s = Inr s' \<Longrightarrow> min_distance s' = fold min (distances e xs s) (min_distance s)"
proof (induction xs arbitrary: s)
  case Nil
  then show ?case by simp
next
  case (Cons x xs)
  from Cons.prems obtain s1 where st: "step e x s = Inr s1" and rn: "run e xs s1 = Inr s'"
    by (auto split: sum.splits)
  from Cons.IH[OF rn] step_min_distance[OF st] show ?case
    using st by simp
qed

section \<open>Lengths and normalization\<close>










section \<open>Claims about canStop\<close>

text \<open>
  C1. A \<^verbatim>\<open>canStop(c)\<close> call whose stack reads are inside the vector and whose
  assertion holds returns, in each of the three versions, exactly the truth value of
  \<open>c \<ge> w * (min_distance - abs_err) \<and> c * (1 + rel_err) \<ge> w * min_distance\<close>, with
  the difference, the sum and the products those of the arithmetic of \<^verbatim>\<open>FCL_REAL\<close>
  (for \<open>double_arith\<close>, each rounded to a double, as lines 616, 676 and 814 compute
  them), and leaves a stack one frame shorter: the frame is consumed.
\<close>

theorem canStop_returns_admissibility:
  assumes "stack_reads_ok c s" and "assert_holds e c s"
  shows "(\<exists>s'. canStop_OBB e c s =
            Inr (c \<ge> fmul (fp e) (w s) (fsub (fp e) (min_distance s) (abs_err s))
                 \<and> fmul (fp e) c (fadd (fp e) 1 (rel_err s))
                      \<ge> fmul (fp e) (w s) (min_distance s), s')
            \<and> length (stack s') = length (stack s) - 1)
       \<and> (\<exists>s'. canStop_RSS e c s =
            Inr (c \<ge> fmul (fp e) (w s) (fsub (fp e) (min_distance s) (abs_err s))
                 \<and> fmul (fp e) c (fadd (fp e) 1 (rel_err s))
                      \<ge> fmul (fp e) (w s) (min_distance s), s')
            \<and> length (stack s') = length (stack s) - 1)
       \<and> (\<exists>s'. canStop_NodeRSS e c s =
            Inr (c \<ge> fmul (fp e) (w s) (fsub (fp e) (min_distance s) (abs_err s))
                 \<and> fmul (fp e) c (fadd (fp e) 1 (rel_err s))
                      \<ge> fmul (fp e) (w s) (min_distance s), s')
            \<and> length (stack s') = length (stack s) - 1)"
proof -
  from assms(1) have len: "length (stack_after c (stack s)) = length (stack s) - 1"
    by (intro length_stack_after) (auto simp: stack_reads_ok_def)
  show ?thesis
  proof (cases "admissible e c s")
    case True
    then have cond: "(c \<ge> fmul (fp e) (w s) (fsub (fp e) (min_distance s) (abs_err s))
                      \<and> fmul (fp e) c (fadd (fp e) 1 (rel_err s))
                           \<ge> fmul (fp e) (w s) (min_distance s)) = True"
      by (simp only: admissible_def simp_thms)
    show ?thesis
      unfolding cond canStop_RSS_eq
      using canStop_OBB_admissible[OF assms True]
        canStop_NodeRSS_admissible[OF assms True] len
      by simp
  next
    case False
    then have cond: "(c \<ge> fmul (fp e) (w s) (fsub (fp e) (min_distance s) (abs_err s))
                      \<and> fmul (fp e) c (fadd (fp e) 1 (rel_err s))
                           \<ge> fmul (fp e) (w s) (min_distance s)) = False"
      by (simp only: admissible_def simp_thms)
    show ?thesis
      unfolding cond canStop_RSS_eq
      using canStop_OBB_inadmissible[OF assms(1) False]
        canStop_NodeRSS_inadmissible[OF assms(1) False] len
      by simp
  qed
qed

theorem canStop_returns_admissibility_witness:
  "stack_reads_ok 3 example_node \<and> assert_holds example_env 3 example_node
   \<and> (\<exists>s'. canStop_OBB example_env 3 example_node = Inr (True, s') \<and> length (stack s') = 1)
   \<and> (\<exists>s'. canStop_RSS example_env 3 example_node = Inr (True, s') \<and> length (stack s') = 1)
   \<and> (\<exists>s'. canStop_NodeRSS example_env 3 example_node = Inr (True, s')
           \<and> length (stack s') = 1)
   \<and> stack_reads_ok 3 example_node_double
   \<and> assert_holds example_env_double 3 example_node_double
   \<and> fp example_env_double = double_arith
   \<and> w example_node_double = round_to_double (1 / 10)
   \<and> min_distance example_node_double = 30
   \<and> (\<exists>s'. canStop_OBB example_env_double 3 example_node_double = Inr (True, s')
           \<and> length (stack s') = 0)
   \<and> (\<exists>s'. canStop_RSS example_env_double 3 example_node_double = Inr (True, s')
           \<and> length (stack s') = 0)
   \<and> (\<exists>s'. canStop_NodeRSS example_env_double 3 example_node_double = Inr (True, s')
           \<and> length (stack s') = 0)"
proof -
  have cond: "(fmul (fp example_env) (w example_node)
                 (fsub (fp example_env) (min_distance example_node) (abs_err example_node)) \<le> 3
              \<and> fmul (fp example_env) (w example_node) (min_distance example_node)
                 \<le> fmul (fp example_env) 3 (fadd (fp example_env) 1 (rel_err example_node)))
              = True"
    by (simp add: example_node_def)
  have len: "length (stack example_node) - 1 = 1"
    by (simp add: example_node_def)
  have exact: "(\<exists>s'. canStop_OBB example_env 3 example_node = Inr (True, s')
                   \<and> length (stack s') = 1)
     \<and> (\<exists>s'. canStop_RSS example_env 3 example_node = Inr (True, s') \<and> length (stack s') = 1)
     \<and> (\<exists>s'. canStop_NodeRSS example_env 3 example_node = Inr (True, s')
           \<and> length (stack s') = 1)"
    using canStop_returns_admissibility[OF example_node_reads_ok example_node_assert_holds]
    unfolding len cond .
  have cond_double: "(fmul (fp example_env_double) (w example_node_double)
                 (fsub (fp example_env_double) (min_distance example_node_double)
                    (abs_err example_node_double)) \<le> 3
              \<and> fmul (fp example_env_double) (w example_node_double)
                   (min_distance example_node_double)
                 \<le> fmul (fp example_env_double) 3
                      (fadd (fp example_env_double) 1 (rel_err example_node_double)))
              = True"
    by (simp add: example_node_double_def example_node_def example_env_double_fp
        double_arith_simps round_to_double_30 round_to_double_0_1_times_30
        round_to_double_1 round_to_double_3)
  have len_double: "length (stack example_node_double) - 1 = 0"
    by (simp add: example_node_double_def)
  have double: "(\<exists>s'. canStop_OBB example_env_double 3 example_node_double = Inr (True, s')
                   \<and> length (stack s') = 0)
     \<and> (\<exists>s'. canStop_RSS example_env_double 3 example_node_double = Inr (True, s')
           \<and> length (stack s') = 0)
     \<and> (\<exists>s'. canStop_NodeRSS example_env_double 3 example_node_double = Inr (True, s')
           \<and> length (stack s') = 0)"
    using canStop_returns_admissibility[OF example_node_double_reads_ok
        example_node_double_assert_holds]
    unfolding len_double cond_double .
  have wd: "w example_node_double = round_to_double (1 / 10)"
    by (simp add: example_node_double_def round_to_double_tenth)
  have md: "min_distance example_node_double = 30"
    by (simp add: example_node_double_def)
  from exact double wd md show ?thesis
    by (simp only: example_node_reads_ok example_node_assert_holds
        example_node_double_reads_ok example_node_double_assert_holds
        example_env_double_fp simp_thms)
qed

text \<open>
  C4. A \<^verbatim>\<open>canStop(c)\<close> call whose stack reads are inside the vector and whose
  assertion holds returns, admissible or not; when the top frame's distance is
  greater than \<open>c\<close> the stack it leaves is the old one with the second frame from the
  top overwritten by the top frame and then one frame popped, otherwise the old one
  with one frame popped. An inadmissible call returns false and leaves \<open>delta_t\<close> and
  \<open>min_distance\<close> as they were.
\<close>

theorem canStop_collapses_and_pops:
  assumes "stack_reads_ok c s" and "assert_holds e c s"
  shows "(\<exists>b s'. canStop_OBB e c s = Inr (b, s')
            \<and> stack s' = (if d (last (stack s)) > c
                          then butlast ((stack s)[length (stack s) - 2 := last (stack s)])
                          else butlast (stack s))
            \<and> (\<not> (c \<ge> fmul (fp e) (w s) (fsub (fp e) (min_distance s) (abs_err s))
                    \<and> fmul (fp e) c (fadd (fp e) 1 (rel_err s))
                         \<ge> fmul (fp e) (w s) (min_distance s))
                 \<longrightarrow> \<not> b \<and> delta_t s' = delta_t s \<and> min_distance s' = min_distance s))
       \<and> (\<exists>b s'. canStop_RSS e c s = Inr (b, s')
            \<and> stack s' = (if d (last (stack s)) > c
                          then butlast ((stack s)[length (stack s) - 2 := last (stack s)])
                          else butlast (stack s))
            \<and> (\<not> (c \<ge> fmul (fp e) (w s) (fsub (fp e) (min_distance s) (abs_err s))
                    \<and> fmul (fp e) c (fadd (fp e) 1 (rel_err s))
                         \<ge> fmul (fp e) (w s) (min_distance s))
                 \<longrightarrow> \<not> b \<and> delta_t s' = delta_t s \<and> min_distance s' = min_distance s))
       \<and> (\<exists>b s'. canStop_NodeRSS e c s = Inr (b, s')
            \<and> stack s' = (if d (last (stack s)) > c
                          then butlast ((stack s)[length (stack s) - 2 := last (stack s)])
                          else butlast (stack s))
            \<and> (\<not> (c \<ge> fmul (fp e) (w s) (fsub (fp e) (min_distance s) (abs_err s))
                    \<and> fmul (fp e) c (fadd (fp e) 1 (rel_err s))
                         \<ge> fmul (fp e) (w s) (min_distance s))
                 \<longrightarrow> \<not> b \<and> delta_t s' = delta_t s \<and> min_distance s' = min_distance s))"
proof -
  from assms(1) have aft: "stack_after c (stack s) =
      (if c < d (last (stack s))
       then butlast ((stack s)[length (stack s) - 2 := last (stack s)])
       else butlast (stack s))"
    by (intro stack_after_overwrite) (auto simp: stack_reads_ok_def)
  have adm: "(c \<ge> fmul (fp e) (w s) (fsub (fp e) (min_distance s) (abs_err s))
              \<and> fmul (fp e) c (fadd (fp e) 1 (rel_err s))
                   \<ge> fmul (fp e) (w s) (min_distance s)) = admissible e c s"
    by (simp only: admissible_def)
  show ?thesis
    unfolding adm canStop_RSS_eq canStop_OBB_cases canStop_NodeRSS_cases aft[symmetric]
    using assms by auto
qed

theorem canStop_collapses_and_pops_witness:
  "stack_reads_ok 3 example_node \<and> assert_holds example_env 3 example_node
   \<and> (\<exists>b s'. canStop_OBB example_env 3 example_node = Inr (b, s')
         \<and> stack s' = [example_frame_b])
   \<and> (\<exists>b s'. canStop_RSS example_env 3 example_node = Inr (b, s')
         \<and> stack s' = [example_frame_b])
   \<and> (\<exists>b s'. canStop_NodeRSS example_env 3 example_node = Inr (b, s')
         \<and> stack s' = [example_frame_b])"
proof -
  have stk: "(if d (last (stack example_node)) > 3
              then butlast ((stack example_node)[length (stack example_node) - 2 :=
                                                   last (stack example_node)])
              else butlast (stack example_node)) = [example_frame_b]"
    by (simp add: example_node_def example_frame_b_def)
  show ?thesis
    using canStop_collapses_and_pops[OF example_node_reads_ok example_node_assert_holds]
    unfolding stk
    by (simp only: example_node_reads_ok example_node_assert_holds simp_thms) blast
qed

text \<open>
  C9. In each version, a \<^verbatim>\<open>canStop(c)\<close> call reads outside the stack exactly when
  the stack is empty, or the top frame's distance is greater than \<open>c\<close> and the stack
  holds fewer than two frames; in particular with a single frame of distance greater
  than \<open>c\<close>. A call that returns leaves a stack exactly one frame shorter, and a
  call whose reads are inside the stack and whose assertion holds does return.
\<close>

theorem canStop_stack_bounds:
  "(canStop_OBB e c s = Inl OutOfBounds
      \<longleftrightarrow> stack s = [] \<or> (d (last (stack s)) > c \<and> length (stack s) < 2))
   \<and> (canStop_RSS e c s = Inl OutOfBounds
      \<longleftrightarrow> stack s = [] \<or> (d (last (stack s)) > c \<and> length (stack s) < 2))
   \<and> (canStop_NodeRSS e c s = Inl OutOfBounds
      \<longleftrightarrow> stack s = [] \<or> (d (last (stack s)) > c \<and> length (stack s) < 2))
   \<and> (\<forall>b s'. canStop_OBB e c s = Inr (b, s') \<or> canStop_RSS e c s = Inr (b, s')
              \<or> canStop_NodeRSS e c s = Inr (b, s')
          \<longrightarrow> length (stack s') + 1 = length (stack s))
   \<and> (stack s \<noteq> [] \<and> (d (last (stack s)) > c \<longrightarrow> 2 \<le> length (stack s))
        \<and> assert_holds e c s
        \<longrightarrow> (\<exists>b s'. canStop_OBB e c s = Inr (b, s'))
            \<and> (\<exists>b s'. canStop_RSS e c s = Inr (b, s'))
            \<and> (\<exists>b s'. canStop_NodeRSS e c s = Inr (b, s')))
   \<and> (length (stack s) = 1 \<and> d (last (stack s)) > c
        \<longrightarrow> canStop_OBB e c s = Inl OutOfBounds \<and> canStop_RSS e c s = Inl OutOfBounds
            \<and> canStop_NodeRSS e c s = Inl OutOfBounds)"
proof -
  have ok: "stack_reads_ok c s
            \<longleftrightarrow> \<not> (stack s = [] \<or> (d (last (stack s)) > c \<and> length (stack s) < 2))"
    by (auto simp: stack_reads_ok_def)
  have len: "length (stack_after c (stack s)) + 1 = length (stack s)" if "stack_reads_ok c s"
  proof -
    from that have ne: "stack s \<noteq> []" by (simp add: stack_reads_ok_def)
    from that have "length (stack_after c (stack s)) = length (stack s) - 1"
      by (intro length_stack_after) (auto simp: stack_reads_ok_def)
    with ne show ?thesis by (cases "stack s") simp_all
  qed
  have oob1: "canStop_OBB e c s = Inl OutOfBounds \<longleftrightarrow> \<not> stack_reads_ok c s"
    by (simp add: canStop_OBB_cases)
  have oob2: "canStop_NodeRSS e c s = Inl OutOfBounds \<longleftrightarrow> \<not> stack_reads_ok c s"
    by (simp add: canStop_NodeRSS_cases)
  have ret1: "length (stack s') + 1 = length (stack s)" if "canStop_OBB e c s = Inr (b, s')"
    for b s'
    using that len by (auto simp: canStop_OBB_cases split: if_splits)
  have ret2: "length (stack s') + 1 = length (stack s)" if "canStop_NodeRSS e c s = Inr (b, s')"
    for b s'
    using that len by (auto simp: canStop_NodeRSS_cases split: if_splits)
  have tot1: "\<exists>b s'. canStop_OBB e c s = Inr (b, s')"
    if "stack_reads_ok c s" "assert_holds e c s"
    using that by (auto simp: canStop_OBB_cases)
  have tot2: "\<exists>b s'. canStop_NodeRSS e c s = Inr (b, s')"
    if "stack_reads_ok c s" "assert_holds e c s"
    using that by (auto simp: canStop_NodeRSS_cases)
  have ok_pre: "stack_reads_ok c s"
    if "stack s \<noteq> [] \<and> (d (last (stack s)) > c \<longrightarrow> 2 \<le> length (stack s))"
    using that by (simp add: stack_reads_ok_def)
  have single: "\<not> stack_reads_ok c s" if "length (stack s) = 1 \<and> d (last (stack s)) > c"
    using that by (simp add: stack_reads_ok_def)
  show ?thesis
    unfolding canStop_RSS_eq oob1 oob2 ok
    using ret1 ret2 tot1 tot2 ok_pre single ok by blast
qed

theorem canStop_stack_bounds_witness:
  "canStop_OBB example_env 3 (example_node\<lparr>stack := [example_frame_b]\<rparr>) = Inl OutOfBounds
   \<and> canStop_RSS example_env 3 (example_node\<lparr>stack := [example_frame_b]\<rparr>) = Inl OutOfBounds
   \<and> canStop_NodeRSS example_env 3 (example_node\<lparr>stack := [example_frame_b]\<rparr>)
       = Inl OutOfBounds
   \<and> (\<exists>b s'. canStop_OBB example_env 3 example_node = Inr (b, s')
         \<and> length (stack s') + 1 = length (stack example_node))
   \<and> (\<exists>b s'. canStop_NodeRSS example_env 3 example_node = Inr (b, s')
         \<and> length (stack s') + 1 = length (stack example_node))"
proof -
  have single: "length (stack (example_node\<lparr>stack := [example_frame_b]\<rparr>)) = 1
      \<and> d (last (stack (example_node\<lparr>stack := [example_frame_b]\<rparr>))) > 3"
    by (simp add: example_frame_b_def)
  have pre: "stack example_node \<noteq> []
      \<and> (d (last (stack example_node)) > 3 \<longrightarrow> 2 \<le> length (stack example_node))
      \<and> assert_holds example_env 3 example_node"
    using example_node_assert_holds by (simp add: example_node_def)
  from canStop_stack_bounds[of example_env 3 "example_node\<lparr>stack := [example_frame_b]\<rparr>"] single
  have a: "canStop_OBB example_env 3 (example_node\<lparr>stack := [example_frame_b]\<rparr>) = Inl OutOfBounds
   \<and> canStop_RSS example_env 3 (example_node\<lparr>stack := [example_frame_b]\<rparr>) = Inl OutOfBounds
   \<and> canStop_NodeRSS example_env 3 (example_node\<lparr>stack := [example_frame_b]\<rparr>)
       = Inl OutOfBounds"
    by blast
  from canStop_stack_bounds[of example_env 3 example_node] pre
  have b: "(\<exists>b s'. canStop_OBB example_env 3 example_node = Inr (b, s')
         \<and> length (stack s') + 1 = length (stack example_node))
   \<and> (\<exists>b s'. canStop_NodeRSS example_env 3 example_node = Inr (b, s')
         \<and> length (stack s') + 1 = length (stack example_node))"
    by blast
  from a b show ?thesis by blast
qed

text \<open>
  C2. An admissible \<^verbatim>\<open>canStop(c)\<close> call whose stack reads are inside the vector and
  whose assertion holds returns true, in each of the three versions, and leaves
  \<open>delta_t\<close> as the minimum of its old value and the candidate \<open>cur_delta_t\<close>, which is 1
  when the summed motion bound of the selected frame is at most \<open>c\<close> and the quotient
  \<open>c / bound\<close> of the arithmetic of \<^verbatim>\<open>FCL_REAL\<close> otherwise; a call that returns true has
  done so, a call that is not admissible returns false with \<open>delta_t\<close> as it was, and
  \<^verbatim>\<open>BVTesting\<close> leaves \<open>delta_t\<close> as it was. A leaf test on two valid triangles returns
  and does the same with the triangle distance in the place of \<open>c\<close>. A run of calls
  fails only at a call that fails; over a run that returns \<open>delta_t\<close> is the minimum of
  its initial value and of all candidates computed, so from the initial value 1 it is
  the minimum of 1 and the candidates, and it never increases from one prefix of the run
  to a longer one. In the exact and in the double arithmetic a candidate for a motion
  bound that is not negative is at most 1, and as soon as one candidate is at most the
  initial value, \<open>delta_t\<close> is the minimum of the candidates.
\<close>

theorem delta_t_is_minimum_of_candidates:
  "(stack_reads_ok c s \<and> assert_holds e c s \<and> admissible e c s
      \<longrightarrow> (\<exists>s'. canStop_OBB e c s = Inr (True, s')
             \<and> delta_t s' = min (delta_t s)
                 (if bound_OBB e (selected_frame c (stack s)) \<le> c then 1
                  else fdiv (fp e) c (bound_OBB e (selected_frame c (stack s)))))
          \<and> (\<exists>s'. canStop_RSS e c s = Inr (True, s')
             \<and> delta_t s' = min (delta_t s)
                 (if bound_OBB e (selected_frame c (stack s)) \<le> c then 1
                  else fdiv (fp e) c (bound_OBB e (selected_frame c (stack s)))))
          \<and> (\<exists>s'. canStop_NodeRSS e c s = Inr (True, s')
             \<and> delta_t s' = min (delta_t s)
                 (if bound_NodeRSS e (selected_frame c (stack s)) \<le> c then 1
                  else fdiv (fp e) c (bound_NodeRSS e (selected_frame c (stack s))))))
   \<and> (stack_reads_ok c s \<and> \<not> admissible e c s
      \<longrightarrow> (\<exists>s'. canStop_OBB e c s = Inr (False, s') \<and> delta_t s' = delta_t s)
          \<and> (\<exists>s'. canStop_RSS e c s = Inr (False, s') \<and> delta_t s' = delta_t s)
          \<and> (\<exists>s'. canStop_NodeRSS e c s = Inr (False, s') \<and> delta_t s' = delta_t s))
   \<and> (\<forall>s'. canStop_OBB e c s = Inr (True, s')
       \<longrightarrow> delta_t s' = min (delta_t s)
             (if bound_OBB e (selected_frame c (stack s)) \<le> c then 1
              else fdiv (fp e) c (bound_OBB e (selected_frame c (stack s)))))
   \<and> (\<forall>s'. canStop_RSS e c s = Inr (True, s')
       \<longrightarrow> delta_t s' = min (delta_t s)
             (if bound_OBB e (selected_frame c (stack s)) \<le> c then 1
              else fdiv (fp e) c (bound_OBB e (selected_frame c (stack s)))))
   \<and> (\<forall>s'. canStop_NodeRSS e c s = Inr (True, s')
       \<longrightarrow> delta_t s' = min (delta_t s)
             (if bound_NodeRSS e (selected_frame c (stack s)) \<le> c then 1
              else fdiv (fp e) c (bound_NodeRSS e (selected_frame c (stack s)))))
   \<and> (\<forall>s'. canStop_OBB e c s = Inr (False, s') \<longrightarrow> delta_t s' = delta_t s)
   \<and> (\<forall>s'. canStop_RSS e c s = Inr (False, s') \<longrightarrow> delta_t s' = delta_t s)
   \<and> (\<forall>s'. canStop_NodeRSS e c s = Inr (False, s') \<longrightarrow> delta_t s' = delta_t s)
   \<and> delta_t (snd (BVTesting_NodeRSS e n1 n2 s)) = delta_t s
   \<and> (\<forall>t1 t2. leaf_pair e n1 n2 = Inr (t1, t2)
       \<longrightarrow> (\<exists>s'. leafTesting_NodeRSS e n1 n2 s = Inr s'
              \<and> delta_t s' = min (delta_t s)
                  (if leaf_bound e t1 t2 \<le> fst (leaf_triDistance e t1 t2) then 1
                   else fdiv (fp e) (fst (leaf_triDistance e t1 t2)) (leaf_bound e t1 t2))))
   \<and> (\<forall>err. run e xs s = Inl err
       \<longrightarrow> (\<exists>ys x zs s1. xs = ys @ x # zs \<and> run e ys s = Inr s1 \<and> step e x s1 = Inl err))
   \<and> (\<forall>s'. run e xs s = Inr s'
       \<longrightarrow> delta_t s' = Min (insert (delta_t s) (set (seen e xs s)))
           \<and> delta_t s' \<le> delta_t s
           \<and> (delta_t s = 1 \<longrightarrow> delta_t s' = Min (insert 1 (set (seen e xs s))))
           \<and> ((\<exists>x \<in> set (seen e xs s). x \<le> delta_t s)
               \<longrightarrow> delta_t s' = Min (set (seen e xs s))))
   \<and> ((fp e = exact_arith \<or> fp e = double_arith) \<and> 0 \<le> bound
       \<longrightarrow> (if bound \<le> c then 1 else fdiv (fp e) c bound) \<le> 1)
   \<and> (\<forall>s''. run e (xs @ ys) s = Inr s''
       \<longrightarrow> (\<exists>s'. run e xs s = Inr s' \<and> delta_t s'' \<le> delta_t s'))"
proof -
  have adm: "(\<exists>s'. canStop_OBB e c s = Inr (True, s')
             \<and> delta_t s' = min (delta_t s)
                 (if bound_OBB e (selected_frame c (stack s)) \<le> c then 1
                  else fdiv (fp e) c (bound_OBB e (selected_frame c (stack s)))))
          \<and> (\<exists>s'. canStop_RSS e c s = Inr (True, s')
             \<and> delta_t s' = min (delta_t s)
                 (if bound_OBB e (selected_frame c (stack s)) \<le> c then 1
                  else fdiv (fp e) c (bound_OBB e (selected_frame c (stack s)))))
          \<and> (\<exists>s'. canStop_NodeRSS e c s = Inr (True, s')
             \<and> delta_t s' = min (delta_t s)
                 (if bound_NodeRSS e (selected_frame c (stack s)) \<le> c then 1
                  else fdiv (fp e) c (bound_NodeRSS e (selected_frame c (stack s)))))"
    if "stack_reads_ok c s \<and> assert_holds e c s \<and> admissible e c s"
  proof -
    from that have ok: "stack_reads_ok c s" and as: "assert_holds e c s"
      and ad: "admissible e c s" by simp_all
    show ?thesis
      unfolding canStop_RSS_eq
      using canStop_OBB_admissible[OF ok as ad] canStop_NodeRSS_admissible[OF ok as ad]
      by (simp add: cur_delta_t_of_def)
  qed
  have nadm: "(\<exists>s'. canStop_OBB e c s = Inr (False, s') \<and> delta_t s' = delta_t s)
          \<and> (\<exists>s'. canStop_RSS e c s = Inr (False, s') \<and> delta_t s' = delta_t s)
          \<and> (\<exists>s'. canStop_NodeRSS e c s = Inr (False, s') \<and> delta_t s' = delta_t s)"
    if "stack_reads_ok c s \<and> \<not> admissible e c s"
  proof -
    from that have ok: "stack_reads_ok c s" and na: "\<not> admissible e c s" by simp_all
    show ?thesis
      unfolding canStop_RSS_eq
      using canStop_OBB_inadmissible[OF ok na] canStop_NodeRSS_inadmissible[OF ok na]
      by simp
  qed
  have obb: "delta_t s' = min (delta_t s)
             (if bound_OBB e (selected_frame c (stack s)) \<le> c then 1
              else fdiv (fp e) c (bound_OBB e (selected_frame c (stack s))))"
    if "canStop_OBB e c s = Inr (True, s')" for s'
    using that by (auto simp: canStop_OBB_cases cur_delta_t_of_def split: if_splits)
  have node: "delta_t s' = min (delta_t s)
             (if bound_NodeRSS e (selected_frame c (stack s)) \<le> c then 1
              else fdiv (fp e) c (bound_NodeRSS e (selected_frame c (stack s))))"
    if "canStop_NodeRSS e c s = Inr (True, s')" for s'
    using that by (auto simp: canStop_NodeRSS_cases cur_delta_t_of_def split: if_splits)
  have obb_false: "delta_t s' = delta_t s" if "canStop_OBB e c s = Inr (False, s')" for s'
    using that by (auto simp: canStop_OBB_cases split: if_splits)
  have node_false: "delta_t s' = delta_t s"
    if "canStop_NodeRSS e c s = Inr (False, s')" for s'
    using that by (auto simp: canStop_NodeRSS_cases split: if_splits)
  have bv: "delta_t (snd (BVTesting_NodeRSS e n1 n2 s)) = delta_t s"
    using BVTesting_NodeRSS_fields[of e n1 n2 s] by simp
  have leaf: "\<exists>s'. leafTesting_NodeRSS e n1 n2 s = Inr s'
              \<and> delta_t s' = min (delta_t s)
                  (if leaf_bound e t1 t2 \<le> fst (leaf_triDistance e t1 t2) then 1
                   else fdiv (fp e) (fst (leaf_triDistance e t1 t2)) (leaf_bound e t1 t2))"
    if "leaf_pair e n1 n2 = Inr (t1, t2)" for t1 t2
    using leafTesting_NodeRSS_returns[OF that, of s]
    unfolding cur_delta_t_of_def by blast
  have fails: "\<exists>ys x zs s1. xs = ys @ x # zs \<and> run e ys s = Inr s1 \<and> step e x s1 = Inl err"
    if "run e xs s = Inl err" for err
    using that by (rule run_fails_at)
  have rn: "delta_t s' = Min (insert (delta_t s) (set (seen e xs s)))
           \<and> delta_t s' \<le> delta_t s
           \<and> (delta_t s = 1 \<longrightarrow> delta_t s' = Min (insert 1 (set (seen e xs s))))
           \<and> ((\<exists>x \<in> set (seen e xs s). x \<le> delta_t s)
               \<longrightarrow> delta_t s' = Min (set (seen e xs s)))"
    if "run e xs s = Inr s'" for s'
    using run_delta_t[OF that] fold_min_le[of "seen e xs s" "delta_t s"]
      fold_min_Min[of "seen e xs s" "delta_t s"]
      Min_insert_below[of _ "seen e xs s" "delta_t s"]
    by auto
  have le1: "(fp e = exact_arith \<or> fp e = double_arith) \<and> 0 \<le> bound
       \<longrightarrow> (if bound \<le> c then 1 else fdiv (fp e) c bound) \<le> 1"
    using cur_delta_t_of_le_1[of e bound c] unfolding cur_delta_t_of_def by blast
  have app: "\<exists>s'. run e xs s = Inr s' \<and> delta_t s'' \<le> delta_t s'"
    if "run e (xs @ ys) s = Inr s''" for s''
  proof -
    from run_append[OF that] obtain s' where a: "run e xs s = Inr s'"
      and b: "run e ys s' = Inr s''" by blast
    from run_delta_t[OF b] fold_min_le[of "seen e ys s'" "delta_t s'"]
    have "delta_t s'' \<le> delta_t s'" by simp
    with a show ?thesis by blast
  qed
  show ?thesis
    unfolding canStop_RSS_eq
    using adm[unfolded canStop_RSS_eq] nadm[unfolded canStop_RSS_eq]
      obb node obb_false node_false bv leaf fails rn le1 app
    by (intro conjI impI allI) blast+
qed

theorem delta_t_is_minimum_of_candidates_witness:
  "(\<exists>s'. canStop_OBB example_env 3 example_node = Inr (True, s') \<and> delta_t s' = 1)
   \<and> (\<exists>s'. canStop_RSS example_env 3 example_node = Inr (True, s') \<and> delta_t s' = 1)
   \<and> (\<exists>s'. canStop_NodeRSS example_env 3 example_node = Inr (True, s') \<and> delta_t s' = 1 / 2)
   \<and> (\<exists>s'. canStop_OBB example_env 1 example_node = Inr (False, s') \<and> delta_t s' = 1)
   \<and> (\<exists>s'. canStop_RSS example_env 1 example_node = Inr (False, s') \<and> delta_t s' = 1)
   \<and> (\<exists>s'. canStop_NodeRSS example_env 1 example_node = Inr (False, s') \<and> delta_t s' = 1)
   \<and> (\<exists>s'. canStop_OBB example_env_double 3 example_node_double = Inr (True, s')
         \<and> delta_t s' = 6004799503160661 / 36028797018963968)
   \<and> (\<exists>s'. canStop_RSS example_env_double 3 example_node_double = Inr (True, s')
         \<and> delta_t s' = 6004799503160661 / 36028797018963968)
   \<and> fdiv double_arith 3 18 \<le> 1
   \<and> delta_t (snd (BVTesting_NodeRSS example_env 0 0 example_node)) = 1
   \<and> (\<exists>s'. leafTesting_NodeRSS example_env 0 0 example_node = Inr s' \<and> delta_t s' = 1)
   \<and> (\<exists>s'. run example_env [CanStop 3, LeafTesting 0 0, BVTesting 0 0] example_node = Inr s'
         \<and> seen example_env [CanStop 3, LeafTesting 0 0, BVTesting 0 0] example_node
             = [1 / 2, 1]
         \<and> delta_t s' = 1 / 2)"
proof -
  note inst = delta_t_is_minimum_of_candidates[where e = example_env and c = 3
      and s = example_node and ?n1.0 = 0 and ?n2.0 = 0
      and xs = "[CanStop 3, LeafTesting 0 0, BVTesting 0 0]" and ys = "[]" and bound = 6]
  note inst_1 = delta_t_is_minimum_of_candidates[where e = example_env and c = 1
      and s = example_node and ?n1.0 = 0 and ?n2.0 = 0 and xs = "[]" and ys = "[]"
      and bound = 6]
  note inst_d = delta_t_is_minimum_of_candidates[where e = example_env_double and c = 3
      and s = example_node_double and ?n1.0 = 0 and ?n2.0 = 0 and xs = "[]" and ys = "[]"
      and bound = 18]
  let ?s1 = "example_node\<lparr>delta_t := 1 / 2, stack := [example_frame_b]\<rparr>"
  have d0: "delta_t example_node = 1" by (simp add: example_node_def)
  have d0_d: "delta_t example_node_double = 1"
    by (simp add: example_node_double_def example_node_def)
  have hyp: "stack_reads_ok 3 example_node \<and> assert_holds example_env 3 example_node
             \<and> admissible example_env 3 example_node"
    using example_node_reads_ok example_node_assert_holds example_node_admissible
    by (intro conjI)
  have hyp_1: "stack_reads_ok 1 example_node \<and> \<not> admissible example_env 1 example_node"
    using example_node_reads_ok_1 example_node_inadmissible_1 by (intro conjI)
  have hyp_d: "stack_reads_ok 3 example_node_double
               \<and> assert_holds example_env_double 3 example_node_double
               \<and> admissible example_env_double 3 example_node_double"
    using example_node_double_reads_ok example_node_double_assert_holds
      example_node_double_admissible
    by (intro conjI)
  have a: "(\<exists>s'. canStop_OBB example_env 3 example_node = Inr (True, s') \<and> delta_t s' = 1)
      \<and> (\<exists>s'. canStop_RSS example_env 3 example_node = Inr (True, s') \<and> delta_t s' = 1)
      \<and> (\<exists>s'. canStop_NodeRSS example_env 3 example_node = Inr (True, s')
            \<and> delta_t s' = 1 / 2)"
    using inst[THEN conjunct1, rule_format, OF hyp]
    by (simp add: example_selected_frame example_bound_OBB example_bound_NodeRSS d0)
  have b: "(\<exists>s'. canStop_OBB example_env 1 example_node = Inr (False, s') \<and> delta_t s' = 1)
      \<and> (\<exists>s'. canStop_RSS example_env 1 example_node = Inr (False, s') \<and> delta_t s' = 1)
      \<and> (\<exists>s'. canStop_NodeRSS example_env 1 example_node = Inr (False, s')
            \<and> delta_t s' = 1)"
    using inst_1[THEN conjunct2, THEN conjunct1, rule_format, OF hyp_1]
    by (simp add: d0)
  have dbl: "(\<exists>s'. canStop_OBB example_env_double 3 example_node_double = Inr (True, s')
         \<and> delta_t s' = 6004799503160661 / 36028797018963968)
     \<and> (\<exists>s'. canStop_RSS example_env_double 3 example_node_double = Inr (True, s')
         \<and> delta_t s' = 6004799503160661 / 36028797018963968)"
  proof -
    note both = inst_d[THEN conjunct1, rule_format, OF hyp_d]
    have m: "min (delta_t example_node_double)
               (if bound_OBB example_env_double
                     (selected_frame 3 (stack example_node_double)) \<le> 3
                then 1
                else fdiv (fp example_env_double) 3
                       (bound_OBB example_env_double
                          (selected_frame 3 (stack example_node_double))))
             = 6004799503160661 / 36028797018963968"
      by (simp add: example_double_selected_frame example_double_bound_OBB d0_d
          example_env_double_fp double_arith_simps round_to_double_sixth)
    from both[THEN conjunct1] both[THEN conjunct2, THEN conjunct1] show ?thesis
      unfolding m by (rule conjI)
  qed
  have le1: "fdiv double_arith 3 18 \<le> 1"
  proof -
    have "(fp example_env_double = exact_arith \<or> fp example_env_double = double_arith)
          \<and> (0::real) \<le> 18"
      by (simp add: example_env_double_fp)
    with inst_d have "(if (18::real) \<le> 3 then 1 else fdiv (fp example_env_double) 3 18) \<le> 1"
      by blast
    then show ?thesis by (simp add: example_env_double_fp)
  qed
  from inst have bv: "delta_t (snd (BVTesting_NodeRSS example_env 0 0 example_node)) = 1"
    unfolding d0 by blast
  from inst example_leaf_pair
  have c: "\<exists>s'. leafTesting_NodeRSS example_env 0 0 example_node = Inr s' \<and> delta_t s' = 1"
    by (simp add: example_leaf_bound example_leaf_triDistance d0)
  have st1: "step example_env (CanStop 3) example_node = Inr ?s1"
    by (simp add: example_canStop_NodeRSS)
  from leafTesting_NodeRSS_returns[OF example_leaf_pair, of ?s1]
  obtain s2 where st2: "step example_env (LeafTesting 0 0) ?s1 = Inr s2"
    by auto
  obtain s3 where st3: "step example_env (BVTesting 0 0) s2 = Inr s3"
    by simp
  have rn: "run example_env [CanStop 3, LeafTesting 0 0, BVTesting 0 0] example_node = Inr s3"
    by (simp add: st1 st2 st3 del: step.simps)
  have adm: "admissible example_env 3 example_node" by (rule example_node_admissible)
  have sn: "seen example_env [CanStop 3, LeafTesting 0 0, BVTesting 0 0] example_node
            = [1 / 2, 1]"
    by (simp add: st1 st2 st3 adm example_selected_frame example_bound_NodeRSS
        example_leaf_pair example_leaf_bound example_leaf_triDistance cur_delta_t_of_def
        del: step.simps)
  from inst rn have "delta_t s3 = Min (insert (delta_t example_node)
      (set (seen example_env [CanStop 3, LeafTesting 0 0, BVTesting 0 0] example_node)))"
    by blast
  then have "delta_t s3 = 1 / 2" unfolding sn d0 by simp
  with rn sn have dd: "\<exists>s'. run example_env [CanStop 3, LeafTesting 0 0, BVTesting 0 0]
           example_node = Inr s'
         \<and> seen example_env [CanStop 3, LeafTesting 0 0, BVTesting 0 0] example_node
             = [1 / 2, 1]
         \<and> delta_t s' = 1 / 2"
    by blast
  from a b dbl le1 bv c dd show ?thesis by (intro conjI) blast+
qed

text \<open>
  C3. The code against the spec's direction, at the concrete query. \<^verbatim>\<open>canStop(3)\<close>
  selects the frame with the separation vector \<open>(1, -2, 2)\<close>; the axes and body 1's
  rotation are the identity. The spec's direction is \<open>(1/3, -2/3, 2/3)\<close>, for which the
  summed motion bound is 0 and \<open>delta_t\<close> would stay 1. The RSS node multiplies
  \<^verbatim>\<open>axis[1]\<close> by \<^verbatim>\<open>n[2]\<close>: its direction is \<open>(1/3, 2/3, 2/3)\<close>, its bound 6, and it
  leaves \<open>delta_t = 1/2\<close>. The OBB and RSS template specializations hand
  \<open>(1, -2, 2)\<close>, neither rotated nor normalized, to both motion bounds. On the single
  frame with the separation vector \<open>(1, 2, 2)\<close> the spec's direction is
  \<open>(1/3, 2/3, 2/3)\<close> with the bound 6, for which \<open>delta_t\<close> would become \<open>1/2\<close>, as the RSS
  node makes it; the template specializations hand \<open>(1, 2, 2)\<close> to the motion bounds,
  get the bound 18 and leave \<open>delta_t = 1/6\<close>.
\<close>

theorem canStop_direction_at_example:
  "selected_frame 3 (stack example_node) = example_frame_a
   \<and> P2 example_frame_a - P1 example_frame_a = Vec3f 1 (- 2) 2
   \<and> spec_direction example_env example_frame_a = Vec3f (1 / 3) (- 2 / 3) (2 / 3)
   \<and> spec_bound example_env example_frame_a = 0
   \<and> min (delta_t example_node)
         (cur_delta_t_of example_env 3 (spec_bound example_env example_frame_a)) = 1
   \<and> n_transformed_NodeRSS example_env example_frame_a = Vec3f (1 / 3) (2 / 3) (2 / 3)
   \<and> bound_NodeRSS example_env example_frame_a = 6
   \<and> canStop_NodeRSS example_env 3 example_node
       = Inr (True, example_node\<lparr>delta_t := 1 / 2, stack := [example_frame_b]\<rparr>)
   \<and> n_transformed_OBB example_env example_frame_a = Vec3f 1 (- 2) 2
   \<and> canStop_OBB example_env 3 example_node
       = Inr (True, example_node\<lparr>delta_t := 1, stack := [example_frame_b]\<rparr>)
   \<and> canStop_RSS example_env 3 example_node
       = Inr (True, example_node\<lparr>delta_t := 1, stack := [example_frame_b]\<rparr>)
   \<and> spec_direction example_env example_frame_c = Vec3f (1 / 3) (2 / 3) (2 / 3)
   \<and> spec_bound example_env example_frame_c = 6
   \<and> min (delta_t example_node)
         (cur_delta_t_of example_env 3 (spec_bound example_env example_frame_c))
       = 1 / 2
   \<and> canStop_NodeRSS example_env 3 (example_node\<lparr>stack := [example_frame_c]\<rparr>)
       = Inr (True, example_node\<lparr>delta_t := 1 / 2, stack := []\<rparr>)
   \<and> n_transformed_OBB example_env example_frame_c = Vec3f 1 2 2
   \<and> bound_OBB example_env example_frame_c = 18
   \<and> canStop_OBB example_env 3 (example_node\<lparr>stack := [example_frame_c]\<rparr>)
       = Inr (True, example_node\<lparr>delta_t := 1 / 6, stack := []\<rparr>)
   \<and> canStop_RSS example_env 3 (example_node\<lparr>stack := [example_frame_c]\<rparr>)
       = Inr (True, example_node\<lparr>delta_t := 1 / 6, stack := []\<rparr>)"
proof -
  let ?s = "example_node\<lparr>stack := [example_frame_c]\<rparr>"
  have n: "P2 example_frame_a - P1 example_frame_a = Vec3f 1 (- 2) 2"
    by (simp add: example_frame_a_def)
  have sd: "spec_direction example_env example_frame_a = Vec3f (1 / 3) (- 2 / 3) (2 / 3)"
    by (simp add: spec_direction_def example_env_def example_frame_a_def
        example_model_def example_motion1_def identity_matrix_def normalize_Vec3f_def
        vlength_def sqrLength_def sqrt_9)
  have sb: "spec_bound example_env example_frame_a = 0"
    unfolding spec_bound_def sd
    by (simp add: example_env_def example_motion1_def example_motion2_def)
  have dt: "min (delta_t example_node)
              (cur_delta_t_of example_env 3 (spec_bound example_env example_frame_a))
            = 1"
    unfolding sb by (simp add: example_node_def cur_delta_t_of_def)
  have sd_c: "spec_direction example_env example_frame_c = Vec3f (1 / 3) (2 / 3) (2 / 3)"
    by (simp add: spec_direction_def example_env_def example_frame_c_def
        example_model_def example_motion1_def identity_matrix_def normalize_Vec3f_def
        vlength_def sqrLength_def sqrt_9)
  have sb_c: "spec_bound example_env example_frame_c = 6"
    unfolding spec_bound_def sd_c
    by (simp add: example_env_def example_motion1_def example_motion2_def)
  have dt_c: "min (delta_t example_node)
                (cur_delta_t_of example_env 3 (spec_bound example_env example_frame_c)) = 1 / 2"
    unfolding sb_c by (simp add: example_node_def cur_delta_t_of_def)
  have nd_c: "n_transformed_NodeRSS example_env example_frame_c = Vec3f (1 / 3) (2 / 3) (2 / 3)"
    by (simp add: n_transformed_NodeRSS_def example_env_def example_frame_c_def
        example_model_def example_motion1_def identity_matrix_def normalize_Vec3f_def
        vlength_def sqrLength_def sqrt_9)
  have nb_c: "bound_NodeRSS example_env example_frame_c = 6"
    unfolding bound_NodeRSS_def nd_c
    by (simp add: example_env_def example_motion1_def example_motion2_def)
  have no_c: "n_transformed_OBB example_env example_frame_c = Vec3f 1 2 2"
    by (simp add: n_transformed_OBB_def example_env_def example_frame_c_def example_model_def)
  have ob_c: "bound_OBB example_env example_frame_c = 18"
    unfolding bound_OBB_def no_c
    by (simp add: example_env_def example_motion1_def example_motion2_def)
  have ok_c: "stack_reads_ok 3 ?s"
    by (simp add: stack_reads_ok_def example_frame_c_def)
  have adm_c: "admissible example_env 3 ?s"
    by (simp add: admissible_def example_node_def)
  have sel_c: "selected_frame 3 (stack ?s) = example_frame_c"
    by (simp add: selected_frame_def example_frame_c_def)
  have as_c: "assert_holds example_env 3 ?s"
    unfolding assert_holds_def sel_c by (simp add: example_frame_c_def)
  have aft_c: "stack_after 3 (stack ?s) = []"
    by (simp add: stack_after_def example_frame_c_def)
  have m6: "min (delta_t ?s) (cur_delta_t_of example_env 3 6) = 1 / 2"
    and m18: "min (delta_t ?s) (cur_delta_t_of example_env 3 18) = 1 / 6"
    by (simp_all add: example_node_def cur_delta_t_of_def)
  have upd: "?s\<lparr>delta_t := x, stack := []\<rparr> = example_node\<lparr>delta_t := x, stack := []\<rparr>"
    for x by simp
  have node_c: "canStop_NodeRSS example_env 3 ?s
                = Inr (True, example_node\<lparr>delta_t := 1 / 2, stack := []\<rparr>)"
    using canStop_NodeRSS_admissible[OF ok_c as_c adm_c]
    by (simp only: sel_c aft_c nb_c m6 upd)
  have obb_c: "canStop_OBB example_env 3 ?s
               = Inr (True, example_node\<lparr>delta_t := 1 / 6, stack := []\<rparr>)"
    using canStop_OBB_admissible[OF ok_c as_c adm_c]
    by (simp only: sel_c aft_c ob_c m18 upd)
  show ?thesis
    using n sd sb dt example_selected_frame example_n_transformed_NodeRSS
      example_bound_NodeRSS example_canStop_NodeRSS example_n_transformed_OBB
      example_canStop_OBB sd_c sb_c dt_c node_c no_c ob_c obb_c
    unfolding canStop_RSS_eq
    by (intro conjI)
qed

section \<open>Claims about the collision leaf test\<close>

text \<open>
  C5. The contact budget at the concrete query, with \<open>num_max_contacts = 1\<close> and both
  models occupied. Without contact details, the first leaf test of the intersecting
  leaf pair records a contact and the second one records another: the result holds
  two contacts, one more than the budget, since this branch calls \<^verbatim>\<open>addContact\<close>
  without comparing \<^verbatim>\<open>numContacts\<close> with the budget. With contact details the kernel
  reports two contact points; the first leaf test records one of them and the second
  none, as lines 104 and 105 cut \<^verbatim>\<open>n_contacts\<close> down to what is left of the budget.
\<close>

theorem boolean_only_branch_exceeds_budget:
  "meshCollisionOrientedNodeLeafTesting example_env 0 0 example_request_boolean
     (0, \<lparr>contacts = [], cost_sources = []\<rparr>)
   = Inr (1, \<lparr>contacts = [example_contact], cost_sources = [example_cost_source]\<rparr>)
   \<and> meshCollisionOrientedNodeLeafTesting example_env 0 0 example_request_boolean
       (1, \<lparr>contacts = [example_contact], cost_sources = [example_cost_source]\<rparr>)
     = Inr (2, \<lparr>contacts = [example_contact, example_contact],
               cost_sources = [example_cost_source, example_cost_source]\<rparr>)
   \<and> num_max_contacts example_request_boolean
       < numContacts \<lparr>contacts = [example_contact, example_contact],
                      cost_sources = [example_cost_source, example_cost_source]\<rparr>
   \<and> meshCollisionOrientedNodeLeafTesting example_env 0 0 example_request_detail
       (0, \<lparr>contacts = [], cost_sources = []\<rparr>)
     = Inr (1, \<lparr>contacts = [example_contact_detail], cost_sources = [example_cost_source]\<rparr>)
   \<and> meshCollisionOrientedNodeLeafTesting example_env 0 0 example_request_detail
       (1, \<lparr>contacts = [example_contact_detail], cost_sources = [example_cost_source]\<rparr>)
     = Inr (2, \<lparr>contacts = [example_contact_detail],
               cost_sources = [example_cost_source, example_cost_source]\<rparr>)"
proof -
  have tri1: "leaf_triangle (vertices1 example_env) (tri_indices1 example_env) 0
              = Inr (Vec3f 0 0 0, Vec3f 1 0 0, Vec3f 0 1 0)"
    and tri2: "leaf_triangle (vertices2 example_env) (tri_indices2 example_env) 0
              = Inr (Vec3f 0 0 2, Vec3f 1 0 2, Vec3f 0 1 2)"
    using leaf_pair_triangles[OF example_leaf_pair]
    by (simp_all add: example_env_def example_model_def)
  have occ: "isOccupied (model1 example_env)" "isOccupied (model2 example_env)"
    by (simp_all add: isOccupied_def example_env_def example_model_def)
  have env: "enable_statistics example_env" "cost_density example_env = 1"
    "address (model1 example_env) = 1" "address (model2 example_env) = 2"
    "primitiveId (model1 example_env) 0 = 0" "primitiveId (model2 example_env) 0 = 0"
    "intersect_Triangle example_env q11 q12 q13 q21 q22 q23 M v"
    "intersect_Triangle_contacts example_env q11 q12 q13 q21 q22 q23 M v
       = Some ((Vec3f 0 0 0, Vec3f 1 0 0), 2, 1, Vec3f 0 0 1)"
    "overlap_part example_env a1 a2 a3 a4 a5 a6 = \<lparr>min_ = Vec3f 0 0 0, max_ = Vec3f 1 1 0\<rparr>"
    "transform (tf1 example_env) x = x" "quatRotation_transform (tf1 example_env) x = x"
    for q11 q12 q13 q21 q22 q23 M v a1 a2 a3 a4 a5 a6 x
    by (simp_all add: example_env_def example_model_def identity_transform_def)
  have b1: "meshCollisionOrientedNodeLeafTesting example_env 0 0 example_request_boolean
     (0, \<lparr>contacts = [], cost_sources = []\<rparr>)
   = Inr (1, \<lparr>contacts = [example_contact], cost_sources = [example_cost_source]\<rparr>)"
    unfolding meshCollisionOrientedNodeLeafTesting_def
    by (simp add: tri1 tri2 occ env Let_def example_request_boolean_def addContact_def
        addCostSource_def example_contact_def example_cost_source_def)
  have b2: "meshCollisionOrientedNodeLeafTesting example_env 0 0 example_request_boolean
       (1, \<lparr>contacts = [example_contact], cost_sources = [example_cost_source]\<rparr>)
     = Inr (2, \<lparr>contacts = [example_contact, example_contact],
               cost_sources = [example_cost_source, example_cost_source]\<rparr>)"
    unfolding meshCollisionOrientedNodeLeafTesting_def
    by (simp add: tri1 tri2 occ env Let_def example_request_boolean_def addContact_def
        addCostSource_def example_contact_def example_cost_source_def)
  have over: "num_max_contacts example_request_boolean
       < numContacts \<lparr>contacts = [example_contact, example_contact],
                      cost_sources = [example_cost_source, example_cost_source]\<rparr>"
    by (simp add: example_request_boolean_def numContacts_def)
  have d1: "meshCollisionOrientedNodeLeafTesting example_env 0 0 example_request_detail
       (0, \<lparr>contacts = [], cost_sources = []\<rparr>)
     = Inr (1, \<lparr>contacts = [example_contact_detail], cost_sources = [example_cost_source]\<rparr>)"
    unfolding meshCollisionOrientedNodeLeafTesting_def
    by (simp add: tri1 tri2 occ env Let_def example_request_detail_def addContact_def
        addCostSource_def example_contact_detail_def example_cost_source_def numContacts_def
        addContacts_loop.simps contacts_at_def)
  have d2: "meshCollisionOrientedNodeLeafTesting example_env 0 0 example_request_detail
       (1, \<lparr>contacts = [example_contact_detail], cost_sources = [example_cost_source]\<rparr>)
     = Inr (2, \<lparr>contacts = [example_contact_detail],
               cost_sources = [example_cost_source, example_cost_source]\<rparr>)"
    unfolding meshCollisionOrientedNodeLeafTesting_def
    by (simp add: tri1 tri2 occ env Let_def example_request_detail_def addContact_def
        addCostSource_def example_contact_detail_def example_cost_source_def numContacts_def
        addContacts_loop.simps contacts_at_def)
  from b1 b2 over d1 d2 show ?thesis by (intro conjI)
qed

text \<open>
  C7, as stated, fails: with model 1 free and model 2 occupied the models are not both
  occupied and one of them is not free; the request enables cost accumulation and the
  leaf triangles intersect, yet the leaf test records no cost source. Line 121 asks
  that neither model is free.
\<close>

theorem cost_source_one_model_free_counterexample:
  "\<not> (isOccupied (model1 (example_env\<lparr>model1 := example_model 1 Free,
                                      model2 := example_model 2 Occupied\<rparr>))
       \<and> isOccupied (model2 (example_env\<lparr>model1 := example_model 1 Free,
                                         model2 := example_model 2 Occupied\<rparr>)))
   \<and> \<not> isFree (model2 (example_env\<lparr>model1 := example_model 1 Free,
                                    model2 := example_model 2 Occupied\<rparr>))
   \<and> enable_cost example_request_boolean
   \<and> leaf_pair (example_env\<lparr>model1 := example_model 1 Free,
                            model2 := example_model 2 Occupied\<rparr>) 0 0
       = Inr ((Vec3f 0 0 0, Vec3f 1 0 0, Vec3f 0 1 0), (Vec3f 0 0 2, Vec3f 1 0 2, Vec3f 0 1 2))
   \<and> intersect_Triangle (example_env\<lparr>model1 := example_model 1 Free,
                                     model2 := example_model 2 Occupied\<rparr>)
        (Vec3f 0 0 0) (Vec3f 1 0 0) (Vec3f 0 1 0) (Vec3f 0 0 2) (Vec3f 1 0 2) (Vec3f 0 1 2)
        (R (example_env\<lparr>model1 := example_model 1 Free, model2 := example_model 2 Occupied\<rparr>))
        (T (example_env\<lparr>model1 := example_model 1 Free, model2 := example_model 2 Occupied\<rparr>))
   \<and> meshCollisionOrientedNodeLeafTesting
        (example_env\<lparr>model1 := example_model 1 Free, model2 := example_model 2 Occupied\<rparr>)
        0 0 example_request_boolean (0, \<lparr>contacts = [], cost_sources = []\<rparr>)
       = Inr (1, \<lparr>contacts = [], cost_sources = []\<rparr>)"
proof -
  let ?e = "example_env\<lparr>model1 := example_model 1 Free, model2 := example_model 2 Occupied\<rparr>"
  have occ: "\<not> isOccupied (model1 ?e)" "isFree (model1 ?e)" "\<not> isFree (model2 ?e)"
    by (simp_all add: isOccupied_def isFree_def example_model_def)
  have tri1: "leaf_triangle (vertices1 ?e) (tri_indices1 ?e) (primitiveId (model1 ?e) 0)
              = Inr (Vec3f 0 0 0, Vec3f 1 0 0, Vec3f 0 1 0)"
    and tri2: "leaf_triangle (vertices2 ?e) (tri_indices2 ?e) (primitiveId (model2 ?e) 0)
              = Inr (Vec3f 0 0 2, Vec3f 1 0 2, Vec3f 0 1 2)"
    using leaf_pair_triangles[OF example_leaf_pair_occ[where ?occ1.0 = Free and ?occ2.0 = Occupied]] by simp_all
  have hit: "intersect_Triangle ?e q11 q12 q13 q21 q22 q23 M v" for q11 q12 q13 q21 q22 q23 M v
    by (simp add: example_env_def)
  have st: "enable_statistics ?e" by (simp add: example_env_def)
  have run: "meshCollisionOrientedNodeLeafTesting ?e 0 0 example_request_boolean
               (0, \<lparr>contacts = [], cost_sources = []\<rparr>)
             = Inr (1, \<lparr>contacts = [], cost_sources = []\<rparr>)"
    unfolding meshCollisionOrientedNodeLeafTesting_def
    by (simp only: tri1 tri2 occ st Let_def prod.case sum.case simp_thms if_True if_False)
      simp
  have cost: "enable_cost example_request_boolean"
    by (simp add: example_request_boolean_def)
  from occ cost example_leaf_pair_occ[where ?occ1.0 = Free and ?occ2.0 = Occupied] hit run show ?thesis
    by (intro conjI) simp_all
qed

text \<open>
  C7, amended. On a leaf pair whose models are not both occupied, with cost
  accumulation enabled and intersecting leaf triangles: when neither model is free the
  leaf test appends one cost source, the overlap of the two triangles' world-space
  bounds with the configured density, and no contact; when a model is free it leaves
  the result as it was.
\<close>

theorem cost_source_recorded_when_neither_free:
  assumes "leaf_pair e n1 n2 = Inr ((q11, q12, q13), (q21, q22, q23))"
    and "\<not> (isOccupied (model1 e) \<and> isOccupied (model2 e))"
    and "enable_cost request"
    and "intersect_Triangle e q11 q12 q13 q21 q22 q23 (R e) (T e)"
  shows "(\<not> isFree (model1 e) \<and> \<not> isFree (model2 e)
          \<longrightarrow> (\<exists>k' r'. meshCollisionOrientedNodeLeafTesting e n1 n2 request (k, r) = Inr (k', r')
                 \<and> cost_sources r' = cost_sources r @
                      [CostSource
                         (overlap_part e
                            (transform (tf1 e) q11) (transform (tf1 e) q12) (transform (tf1 e) q13)
                            (transform (tf2 e) q21) (transform (tf2 e) q22) (transform (tf2 e) q23))
                         (cost_density e)]
                 \<and> contacts r' = contacts r))
       \<and> (isFree (model1 e) \<or> isFree (model2 e)
          \<longrightarrow> (\<exists>k'. meshCollisionOrientedNodeLeafTesting e n1 n2 request (k, r) = Inr (k', r)))"
proof -
  note tri = leaf_pair_triangles[OF assms(1)]
  have nocc: "(isOccupied (model1 e) \<and> isOccupied (model2 e)) = False"
    using assms(2) by simp
  have a: "\<exists>k' r'. meshCollisionOrientedNodeLeafTesting e n1 n2 request (k, r) = Inr (k', r')
                 \<and> cost_sources r' = cost_sources r @
                      [CostSource
                         (overlap_part e
                            (transform (tf1 e) q11) (transform (tf1 e) q12) (transform (tf1 e) q13)
                            (transform (tf2 e) q21) (transform (tf2 e) q22) (transform (tf2 e) q23))
                         (cost_density e)]
                 \<and> contacts r' = contacts r"
    if "\<not> isFree (model1 e)" "\<not> isFree (model2 e)"
    using that tri assms(3-4)
    unfolding meshCollisionOrientedNodeLeafTesting_def
    by (simp add: nocc Let_def addCostSource_def)
  have b: "\<exists>k'. meshCollisionOrientedNodeLeafTesting e n1 n2 request (k, r) = Inr (k', r)"
    if "isFree (model1 e) \<or> isFree (model2 e)"
    using that tri assms(3-4)
    unfolding meshCollisionOrientedNodeLeafTesting_def
    by (auto simp: nocc Let_def)
  from a b show ?thesis by blast
qed

theorem cost_source_recorded_when_neither_free_witness:
  "leaf_pair (example_env\<lparr>model1 := example_model 1 Unknown,
                          model2 := example_model 2 Occupied\<rparr>) 0 0
     = Inr ((Vec3f 0 0 0, Vec3f 1 0 0, Vec3f 0 1 0), (Vec3f 0 0 2, Vec3f 1 0 2, Vec3f 0 1 2))
   \<and> enable_cost example_request_boolean
   \<and> (\<exists>k' r'. meshCollisionOrientedNodeLeafTesting
                 (example_env\<lparr>model1 := example_model 1 Unknown,
                              model2 := example_model 2 Occupied\<rparr>)
                 0 0 example_request_boolean (0, \<lparr>contacts = [], cost_sources = []\<rparr>)
               = Inr (k', r')
             \<and> cost_sources r' = [example_cost_source] \<and> contacts r' = [])
   \<and> (\<exists>k'. meshCollisionOrientedNodeLeafTesting
                 (example_env\<lparr>model1 := example_model 1 Free,
                              model2 := example_model 2 Occupied\<rparr>)
                 0 0 example_request_boolean (0, \<lparr>contacts = [], cost_sources = []\<rparr>)
               = Inr (k', \<lparr>contacts = [], cost_sources = []\<rparr>))"
proof -
  let ?u = "example_env\<lparr>model1 := example_model 1 Unknown, model2 := example_model 2 Occupied\<rparr>"
  let ?f = "example_env\<lparr>model1 := example_model 1 Free, model2 := example_model 2 Occupied\<rparr>"
  have cost: "enable_cost example_request_boolean"
    by (simp add: example_request_boolean_def)
  have occ_u: "\<not> (isOccupied (model1 ?u) \<and> isOccupied (model2 ?u))"
    "\<not> isFree (model1 ?u) \<and> \<not> isFree (model2 ?u)"
    by (simp_all add: isOccupied_def isFree_def example_model_def)
  have occ_f: "\<not> (isOccupied (model1 ?f) \<and> isOccupied (model2 ?f))"
    "isFree (model1 ?f) \<or> isFree (model2 ?f)"
    by (simp_all add: isOccupied_def isFree_def example_model_def)
  have hit_u: "intersect_Triangle ?u (Vec3f 0 0 0) (Vec3f 1 0 0) (Vec3f 0 1 0)
                 (Vec3f 0 0 2) (Vec3f 1 0 2) (Vec3f 0 1 2) (R ?u) (T ?u)"
    and hit_f: "intersect_Triangle ?f (Vec3f 0 0 0) (Vec3f 1 0 0) (Vec3f 0 1 0)
                 (Vec3f 0 0 2) (Vec3f 1 0 2) (Vec3f 0 1 2) (R ?f) (T ?f)"
    by (simp_all add: example_env_def)
  have src: "CostSource
               (overlap_part ?u
                  (transform (tf1 ?u) (Vec3f 0 0 0)) (transform (tf1 ?u) (Vec3f 1 0 0))
                  (transform (tf1 ?u) (Vec3f 0 1 0)) (transform (tf2 ?u) (Vec3f 0 0 2))
                  (transform (tf2 ?u) (Vec3f 1 0 2)) (transform (tf2 ?u) (Vec3f 0 1 2)))
               (cost_density ?u) = example_cost_source"
    by (simp add: example_env_def example_cost_source_def)
  from cost_source_recorded_when_neither_free[OF example_leaf_pair_occ[where ?occ1.0 = Unknown and ?occ2.0 = Occupied]
      occ_u(1) cost hit_u, of 0 "\<lparr>contacts = [], cost_sources = []\<rparr>"] occ_u(2)
  have a: "\<exists>k' r'. meshCollisionOrientedNodeLeafTesting ?u 0 0 example_request_boolean
                     (0, \<lparr>contacts = [], cost_sources = []\<rparr>) = Inr (k', r')
             \<and> cost_sources r' = [example_cost_source] \<and> contacts r' = []"
    unfolding src by simp
  from cost_source_recorded_when_neither_free[OF example_leaf_pair_occ[where ?occ1.0 = Free and ?occ2.0 = Occupied]
      occ_f(1) cost hit_f, of 0 "\<lparr>contacts = [], cost_sources = []\<rparr>"] occ_f(2)
  have b: "\<exists>k'. meshCollisionOrientedNodeLeafTesting ?f 0 0 example_request_boolean
                  (0, \<lparr>contacts = [], cost_sources = []\<rparr>)
                = Inr (k', \<lparr>contacts = [], cost_sources = []\<rparr>)"
    by blast
  from example_leaf_pair_occ[where ?occ1.0 = Unknown and ?occ2.0 = Occupied] cost a b show ?thesis by (intro conjI)
qed

section \<open>Claims about the minimum distance\<close>

text \<open>
  C6. A conservative advancement leaf test leaves \<open>min_distance\<close> as the minimum of
  its old value and the leaf pair's triangle distance; it replaces the witness points
  and the primitive ids when the new distance is strictly smaller and keeps them
  otherwise, also for an equal distance. Over a run, \<open>min_distance\<close> is the minimum of
  its initial value and of the distances of all leaf pairs examined, never increases,
  and is the smallest distance examined as soon as one of them is at most the initial
  value. The distance query's leaf test and its runs behave the same on the result,
  with \<^verbatim>\<open>DistanceResult::update\<close> as the spec describes it.
\<close>

theorem minimum_distance_is_smallest_seen:
  "(\<forall>t1 t2. leaf_pair e n1 n2 = Inr (t1, t2)
      \<longrightarrow> (\<exists>s'. leafTesting_NodeRSS e n1 n2 s = Inr s'
            \<and> min_distance s' = min (min_distance s) (fst (leaf_triDistance e t1 t2))
            \<and> (fst (leaf_triDistance e t1 t2) < min_distance s
                \<longrightarrow> p1 s' = fst (snd (leaf_triDistance e t1 t2))
                    \<and> p2 s' = snd (snd (leaf_triDistance e t1 t2))
                    \<and> last_tri_id1 s' = primitiveId (model1 e) n1
                    \<and> last_tri_id2 s' = primitiveId (model2 e) n2)
            \<and> (min_distance s \<le> fst (leaf_triDistance e t1 t2)
                \<longrightarrow> min_distance s' = min_distance s \<and> p1 s' = p1 s \<and> p2 s' = p2 s
                    \<and> last_tri_id1 s' = last_tri_id1 s
                    \<and> last_tri_id2 s' = last_tri_id2 s)))
   \<and> (\<forall>s'. run e xs s = Inr s'
      \<longrightarrow> min_distance s' = Min (insert (min_distance s) (set (distances e xs s)))
          \<and> min_distance s' \<le> min_distance s
          \<and> ((\<exists>x \<in> set (distances e xs s). x \<le> min_distance s)
              \<longrightarrow> min_distance s' = Min (set (distances e xs s))))
   \<and> (\<forall>t1 t2. leaf_pair e n1 n2 = Inr (t1, t2)
      \<longrightarrow> (\<exists>k' r'. meshDistanceOrientedNodeLeafTesting e n1 n2 request (k, r) = Inr (k', r')
            \<and> result_min_distance r'
                = min (result_min_distance r) (fst (leaf_triDistance e t1 t2))
            \<and> (fst (leaf_triDistance e t1 t2) < result_min_distance r
                \<longrightarrow> o1 r' = address (model1 e) \<and> o2 r' = address (model2 e)
                    \<and> b1 r' = primitiveId (model1 e) n1
                    \<and> b2 r' = primitiveId (model2 e) n2
                    \<and> (enable_nearest_points request
                        \<longrightarrow> nearest_points r' = snd (leaf_triDistance e t1 t2)))
            \<and> (result_min_distance r \<le> fst (leaf_triDistance e t1 t2) \<longrightarrow> r' = r)))
   \<and> (\<forall>k' r'. distance_run e request ps (k, r) = Inr (k', r')
      \<longrightarrow> result_min_distance r'
            = Min (insert (result_min_distance r) (set (leaf_distances e ps)))
          \<and> result_min_distance r' \<le> result_min_distance r
          \<and> ((\<exists>x \<in> set (leaf_distances e ps). x \<le> result_min_distance r)
              \<longrightarrow> result_min_distance r' = Min (set (leaf_distances e ps))))"
proof -
  have ccd_leaf: "\<exists>s'. leafTesting_NodeRSS e n1 n2 s = Inr s'
            \<and> min_distance s' = min (min_distance s) (fst (leaf_triDistance e t1 t2))
            \<and> (fst (leaf_triDistance e t1 t2) < min_distance s
                \<longrightarrow> p1 s' = fst (snd (leaf_triDistance e t1 t2))
                    \<and> p2 s' = snd (snd (leaf_triDistance e t1 t2))
                    \<and> last_tri_id1 s' = primitiveId (model1 e) n1
                    \<and> last_tri_id2 s' = primitiveId (model2 e) n2)
            \<and> (min_distance s \<le> fst (leaf_triDistance e t1 t2)
                \<longrightarrow> min_distance s' = min_distance s \<and> p1 s' = p1 s \<and> p2 s' = p2 s
                    \<and> last_tri_id1 s' = last_tri_id1 s
                    \<and> last_tri_id2 s' = last_tri_id2 s)"
    if lp: "leaf_pair e n1 n2 = Inr (t1, t2)" for t1 t2
  proof -
    from leafTesting_NodeRSS_returns[OF lp, of s] obtain s' where
      ret: "leafTesting_NodeRSS e n1 n2 s = Inr s'"
      and md: "min_distance s' = min (min_distance s) (fst (leaf_triDistance e t1 t2))"
      and wit: "if fst (leaf_triDistance e t1 t2) < min_distance s
               then p1 s' = fst (snd (leaf_triDistance e t1 t2))
                    \<and> p2 s' = snd (snd (leaf_triDistance e t1 t2))
                    \<and> last_tri_id1 s' = primitiveId (model1 e) n1
                    \<and> last_tri_id2 s' = primitiveId (model2 e) n2
               else p1 s' = p1 s \<and> p2 s' = p2 s
                    \<and> last_tri_id1 s' = last_tri_id1 s \<and> last_tri_id2 s' = last_tri_id2 s"
      by blast
    from md wit have
      "(fst (leaf_triDistance e t1 t2) < min_distance s
                \<longrightarrow> p1 s' = fst (snd (leaf_triDistance e t1 t2))
                    \<and> p2 s' = snd (snd (leaf_triDistance e t1 t2))
                    \<and> last_tri_id1 s' = primitiveId (model1 e) n1
                    \<and> last_tri_id2 s' = primitiveId (model2 e) n2)
       \<and> (min_distance s \<le> fst (leaf_triDistance e t1 t2)
                \<longrightarrow> min_distance s' = min_distance s \<and> p1 s' = p1 s \<and> p2 s' = p2 s
                    \<and> last_tri_id1 s' = last_tri_id1 s
                    \<and> last_tri_id2 s' = last_tri_id2 s)"
      by (auto split: if_splits)
    with ret md show ?thesis by blast
  qed
  have ccd_run: "min_distance s' = Min (insert (min_distance s) (set (distances e xs s)))
          \<and> min_distance s' \<le> min_distance s
          \<and> ((\<exists>x \<in> set (distances e xs s). x \<le> min_distance s)
              \<longrightarrow> min_distance s' = Min (set (distances e xs s)))"
    if "run e xs s = Inr s'" for s'
    using run_min_distance[OF that] fold_min_le[of "distances e xs s" "min_distance s"]
      fold_min_Min[of "distances e xs s" "min_distance s"]
      Min_insert_below[of _ "distances e xs s" "min_distance s"]
    by auto
  have dist_leaf: "\<exists>k' r'. meshDistanceOrientedNodeLeafTesting e n1 n2 request (k, r) = Inr (k', r')
            \<and> result_min_distance r'
                = min (result_min_distance r) (fst (leaf_triDistance e t1 t2))
            \<and> (fst (leaf_triDistance e t1 t2) < result_min_distance r
                \<longrightarrow> o1 r' = address (model1 e) \<and> o2 r' = address (model2 e)
                    \<and> b1 r' = primitiveId (model1 e) n1
                    \<and> b2 r' = primitiveId (model2 e) n2
                    \<and> (enable_nearest_points request
                        \<longrightarrow> nearest_points r' = snd (leaf_triDistance e t1 t2)))
            \<and> (result_min_distance r \<le> fst (leaf_triDistance e t1 t2) \<longrightarrow> r' = r)"
    if lp: "leaf_pair e n1 n2 = Inr (t1, t2)" for t1 t2
    unfolding meshDistance_returns[OF lp]
    by (auto simp: update_def update_points_def min_def)
  have dist_run: "result_min_distance r'
            = Min (insert (result_min_distance r) (set (leaf_distances e ps)))
          \<and> result_min_distance r' \<le> result_min_distance r
          \<and> ((\<exists>x \<in> set (leaf_distances e ps). x \<le> result_min_distance r)
              \<longrightarrow> result_min_distance r' = Min (set (leaf_distances e ps)))"
    if "distance_run e request ps (k, r) = Inr (k', r')" for k' r'
    using distance_run_min[OF that]
      fold_min_le[of "leaf_distances e ps" "result_min_distance r"]
      fold_min_Min[of "leaf_distances e ps" "result_min_distance r"]
      Min_insert_below[of _ "leaf_distances e ps" "result_min_distance r"]
    by auto
  from ccd_leaf ccd_run dist_leaf dist_run show ?thesis by blast
qed

theorem minimum_distance_is_smallest_seen_witness:
  "(\<exists>s'. leafTesting_NodeRSS example_env 0 0 example_node = Inr s'
        \<and> min_distance s' = 2 \<and> p1 s' = Vec3f 0 0 0 \<and> p2 s' = Vec3f 0 0 2
        \<and> last_tri_id1 s' = 0 \<and> last_tri_id2 s' = 0)
   \<and> (\<exists>s'. leafTesting_NodeRSS example_env 0 0
               (example_node\<lparr>min_distance := 2, last_tri_id1 := 7\<rparr>) = Inr s'
        \<and> min_distance s' = 2 \<and> p1 s' = Vec3f 0 0 0 \<and> p2 s' = Vec3f 0 0 0
        \<and> last_tri_id1 s' = 7)
   \<and> (\<exists>s'. run example_env [LeafTesting 0 0, LeafTesting 0 0] example_node = Inr s'
        \<and> min_distance s' = 2)
   \<and> (\<exists>k'. meshDistanceOrientedNodeLeafTesting example_env 0 0
               \<lparr>enable_nearest_points = True\<rparr> (0, example_result)
             = Inr (k', example_result))
   \<and> (\<exists>k' r'. meshDistanceOrientedNodeLeafTesting example_env 0 0
               \<lparr>enable_nearest_points = True\<rparr>
               (0, example_result\<lparr>result_min_distance := 5\<rparr>) = Inr (k', r')
        \<and> result_min_distance r' = 2 \<and> b1 r' = 0 \<and> b2 r' = 0
        \<and> nearest_points r' = (Vec3f 0 0 0, Vec3f 0 0 2))
   \<and> (\<exists>k' r'. distance_run example_env \<lparr>enable_nearest_points = True\<rparr> [(0, 0), (0, 0)]
               (0, example_result\<lparr>result_min_distance := 5\<rparr>) = Inr (k', r')
        \<and> result_min_distance r' = 2)"
proof -
  let ?rq = "\<lparr>enable_nearest_points = True\<rparr>"
  let ?ts = "example_node\<lparr>min_distance := 2, last_tri_id1 := 7\<rparr>"
  let ?r5 = "example_result\<lparr>result_min_distance := 5\<rparr>"
  let ?xs = "[LeafTesting 0 0, LeafTesting 0 0]"
  let ?ps = "[(0, 0), (0, 0)] :: (int \<times> int) list"
  note lp = example_leaf_pair
  note td = example_leaf_triDistance
  have ids: "primitiveId (model1 example_env) 0 = 0" "primitiveId (model2 example_env) 0 = 0"
    by (simp_all add: example_env_def example_model_def)
  have a: "\<exists>s'. leafTesting_NodeRSS example_env 0 0 example_node = Inr s'
        \<and> min_distance s' = 2 \<and> p1 s' = Vec3f 0 0 0 \<and> p2 s' = Vec3f 0 0 2
        \<and> last_tri_id1 s' = 0 \<and> last_tri_id2 s' = 0"
    using minimum_distance_is_smallest_seen[where e = example_env and ?n1.0 = 0
        and ?n2.0 = 0 and s = example_node and xs = ?xs and request = ?rq and k = 0
        and r = ?r5 and ps = ?ps, THEN conjunct1, rule_format, OF lp]
    by (auto simp add: td ids example_node_def)
  have b: "\<exists>s'. leafTesting_NodeRSS example_env 0 0 ?ts = Inr s'
        \<and> min_distance s' = 2 \<and> p1 s' = Vec3f 0 0 0 \<and> p2 s' = Vec3f 0 0 0
        \<and> last_tri_id1 s' = 7"
    using minimum_distance_is_smallest_seen[where e = example_env and ?n1.0 = 0
        and ?n2.0 = 0 and s = ?ts and xs = ?xs and request = ?rq and k = 0
        and r = example_result and ps = ?ps, THEN conjunct1, rule_format, OF lp]
    by (auto simp add: td ids example_node_def)
  from a obtain s1 where st1: "step example_env (LeafTesting 0 0) example_node = Inr s1"
    and m1: "min_distance s1 = 2"
    by auto
  from leafTesting_NodeRSS_returns[OF lp, of s1]
  obtain s2 where st2: "step example_env (LeafTesting 0 0) s1 = Inr s2"
    by auto
  have rn: "run example_env ?xs example_node = Inr s2"
    by (simp add: st1 st2 del: step.simps)
  have ds: "distances example_env ?xs example_node = [2, 2]"
    by (simp add: st1 st2 lp td del: step.simps)
  from minimum_distance_is_smallest_seen[where e = example_env and ?n1.0 = 0
        and ?n2.0 = 0 and s = example_node and xs = ?xs and request = ?rq and k = 0
        and r = ?r5 and ps = ?ps, THEN conjunct2, THEN conjunct1, rule_format, OF rn]
  have "min_distance s2 = Min (insert (min_distance example_node)
                                  (set (distances example_env ?xs example_node)))"
    by blast
  then have "min_distance s2 = 2" unfolding ds by (simp add: example_node_def)
  with rn have c: "\<exists>s'. run example_env ?xs example_node = Inr s' \<and> min_distance s' = 2"
    by blast
  have d: "\<exists>k'. meshDistanceOrientedNodeLeafTesting example_env 0 0 ?rq (0, example_result)
                = Inr (k', example_result)"
    using minimum_distance_is_smallest_seen[where e = example_env and ?n1.0 = 0
        and ?n2.0 = 0 and s = example_node and xs = ?xs and request = ?rq and k = 0
        and r = example_result and ps = ?ps, THEN conjunct2, THEN conjunct2, THEN conjunct1, rule_format, OF lp]
    by (auto simp add: td example_result_def)
  have e: "\<exists>k' r'. meshDistanceOrientedNodeLeafTesting example_env 0 0 ?rq (0, ?r5)
                     = Inr (k', r')
        \<and> result_min_distance r' = 2 \<and> b1 r' = 0 \<and> b2 r' = 0
        \<and> nearest_points r' = (Vec3f 0 0 0, Vec3f 0 0 2)"
    using minimum_distance_is_smallest_seen[where e = example_env and ?n1.0 = 0
        and ?n2.0 = 0 and s = example_node and xs = ?xs and request = ?rq and k = 0
        and r = ?r5 and ps = ?ps, THEN conjunct2, THEN conjunct2, THEN conjunct1, rule_format, OF lp]
    by (auto simp add: td ids example_result_def)
  from e obtain k1 r1 where dl1: "meshDistanceOrientedNodeLeafTesting example_env 0 0 ?rq (0, ?r5)
                     = Inr (k1, r1)"
    by blast
  obtain k2 r2 where dl2: "meshDistanceOrientedNodeLeafTesting example_env 0 0 ?rq (k1, r1)
                     = Inr (k2, r2)"
    using meshDistance_returns[OF lp, of ?rq k1 r1] by simp
  have drn: "distance_run example_env ?rq ?ps (0, ?r5) = Inr (k2, r2)"
    by (simp add: dl1 dl2)
  have lds: "leaf_distances example_env ?ps = [2, 2]"
    by (simp add: lp td)
  from minimum_distance_is_smallest_seen[where e = example_env and ?n1.0 = 0
        and ?n2.0 = 0 and s = example_node and xs = ?xs and request = ?rq and k = 0
        and r = ?r5 and ps = ?ps, THEN conjunct2, THEN conjunct2, THEN conjunct2, rule_format, OF drn]
  have "result_min_distance r2 = Min (insert (result_min_distance ?r5)
                                        (set (leaf_distances example_env ?ps)))"
    by blast
  then have "result_min_distance r2 = 2" unfolding lds by simp
  with drn have f: "\<exists>k' r'. distance_run example_env ?rq ?ps (0, ?r5) = Inr (k', r')
        \<and> result_min_distance r' = 2"
    by blast
  from a b c d e f show ?thesis by (intro conjI)
qed

text \<open>
  C8. \<^verbatim>\<open>postprocess\<close> of a distance query: when nearest points were requested and the
  result's two model addresses are the query's \<^verbatim>\<open>model1\<close> and \<^verbatim>\<open>model2\<close>, both stored
  nearest points are replaced by their images under body 1's transform and every other
  field of the result is kept; in every other case the result is returned as it was.
\<close>

theorem postprocess_transforms_iff_requested_and_same_models:
  "(enable_nearest_points request \<and> o1 result = address (model1 e)
      \<and> o2 result = address (model2 e)
     \<longrightarrow> nearest_points (distancePostprocessOrientedNode e request result)
           = (transform (tf1 e) (fst (nearest_points result)),
              transform (tf1 e) (snd (nearest_points result)))
         \<and> result_min_distance (distancePostprocessOrientedNode e request result)
             = result_min_distance result
         \<and> o1 (distancePostprocessOrientedNode e request result) = o1 result
         \<and> o2 (distancePostprocessOrientedNode e request result) = o2 result
         \<and> b1 (distancePostprocessOrientedNode e request result) = b1 result
         \<and> b2 (distancePostprocessOrientedNode e request result) = b2 result)
   \<and> (\<not> (enable_nearest_points request \<and> o1 result = address (model1 e)
          \<and> o2 result = address (model2 e))
     \<longrightarrow> distancePostprocessOrientedNode e request result = result)
   \<and> postprocess_RSS e request result = distancePostprocessOrientedNode e request result"
  by (simp add: distancePostprocessOrientedNode_def postprocess_RSS_def)

theorem postprocess_transforms_iff_requested_and_same_models_witness:
  "nearest_points
     (distancePostprocessOrientedNode
        (example_env\<lparr>tf1 := \<lparr>transform = (\<lambda>v. v + Vec3f 10 0 0),
                            quatRotation_transform = (\<lambda>v. v)\<rparr>\<rparr>)
        \<lparr>enable_nearest_points = True\<rparr> example_result)
   = (Vec3f 11 0 0, Vec3f 11 0 2)
   \<and> distancePostprocessOrientedNode
        (example_env\<lparr>tf1 := \<lparr>transform = (\<lambda>v. v + Vec3f 10 0 0),
                            quatRotation_transform = (\<lambda>v. v)\<rparr>\<rparr>)
        \<lparr>enable_nearest_points = False\<rparr> example_result
     = example_result
   \<and> distancePostprocessOrientedNode
        (example_env\<lparr>tf1 := \<lparr>transform = (\<lambda>v. v + Vec3f 10 0 0),
                            quatRotation_transform = (\<lambda>v. v)\<rparr>\<rparr>)
        \<lparr>enable_nearest_points = True\<rparr> (example_result\<lparr>o2 := 3\<rparr>)
     = example_result\<lparr>o2 := 3\<rparr>"
proof -
  let ?e = "example_env\<lparr>tf1 := \<lparr>transform = (\<lambda>v. v + Vec3f 10 0 0),
                                  quatRotation_transform = (\<lambda>v. v)\<rparr>\<rparr>"
  have pre: "enable_nearest_points \<lparr>enable_nearest_points = True\<rparr>
             \<and> o1 example_result = address (model1 ?e)
             \<and> o2 example_result = address (model2 ?e)"
    by (simp add: example_result_def example_env_def example_model_def)
  have npre1: "\<not> (enable_nearest_points \<lparr>enable_nearest_points = False\<rparr>
                \<and> o1 example_result = address (model1 ?e)
                \<and> o2 example_result = address (model2 ?e))"
    by simp
  have npre2: "\<not> (enable_nearest_points \<lparr>enable_nearest_points = True\<rparr>
                \<and> o1 (example_result\<lparr>o2 := 3\<rparr>) = address (model1 ?e)
                \<and> o2 (example_result\<lparr>o2 := 3\<rparr>) = address (model2 ?e))"
    by (simp add: example_env_def example_model_def)
  have np: "nearest_points example_result = (Vec3f 1 0 0, Vec3f 1 0 2)"
    by (simp add: example_result_def)
  from postprocess_transforms_iff_requested_and_same_models[of
        "\<lparr>enable_nearest_points = True\<rparr>" example_result ?e,
        THEN conjunct1, rule_format, OF pre]
  have "nearest_points (distancePostprocessOrientedNode ?e \<lparr>enable_nearest_points = True\<rparr>
                          example_result)
        = (transform (tf1 ?e) (fst (nearest_points example_result)),
           transform (tf1 ?e) (snd (nearest_points example_result)))"
    by (rule conjunct1)
  then have a: "nearest_points (distancePostprocessOrientedNode ?e
                                  \<lparr>enable_nearest_points = True\<rparr> example_result)
                = (Vec3f 11 0 0, Vec3f 11 0 2)"
    unfolding np by simp
  have b: "distancePostprocessOrientedNode ?e \<lparr>enable_nearest_points = False\<rparr> example_result
           = example_result"
    by (rule postprocess_transforms_iff_requested_and_same_models[of
        "\<lparr>enable_nearest_points = False\<rparr>" example_result ?e,
        THEN conjunct2, THEN conjunct1, rule_format, OF npre1])
  have c: "distancePostprocessOrientedNode ?e \<lparr>enable_nearest_points = True\<rparr>
             (example_result\<lparr>o2 := 3\<rparr>)
           = example_result\<lparr>o2 := 3\<rparr>"
    by (rule postprocess_transforms_iff_requested_and_same_models[of
        "\<lparr>enable_nearest_points = True\<rparr>" "example_result\<lparr>o2 := 3\<rparr>" ?e,
        THEN conjunct2, THEN conjunct1, rule_format, OF npre2])
  from a b c show ?thesis by (intro conjI)
qed

section \<open>Claims about the leaf direction\<close>



end
